theory Spec2Isabelle
  imports Complex_Main
begin

section \<open>JavaScript values and numbers\<close>

text \<open>
  A JavaScript number is an IEEE 754 binary64 value: a finite number, \<open>Infinity\<close>,
  \<open>-Infinity\<close> or \<open>NaN\<close>. A finite number is carried as the real it denotes; the results of
  the arithmetic operations and of the conversion from text are rounded to the nearest
  binary64 value, ties to even, and overflow to an infinity. The sign of zero is not
  modelled: zero is the positive zero.
\<close>

datatype jsnum = Fin real | PInf | NInf | NaN

text \<open>
  The values that reach the component: the texts of the form fields and the primitive
  JSON fields of the API answer.
\<close>

datatype jsval = JUndefined | JNull | JBool bool | JNum jsnum | JStr string

text \<open>An infinity by its sign: \<open>True\<close> is negative.\<close>

definition signedInf :: "bool \<Rightarrow> jsnum" where
  "signedInf negative = (if negative then NInf else PInf)"

subsection \<open>Rounding to binary64\<close>

text \<open>Rounding to the nearest integer, ties to the even one.\<close>

definition roundEven :: "real \<Rightarrow> int" where
  "roundEven r =
     (let f = \<lfloor>r\<rfloor>; d = r - of_int f
      in if d < 1 / 2 then f else if 1 / 2 < d then f + 1 else if even f then f else f + 1)"

text \<open>
  The binary exponent of a nonnegative number: the \<open>e\<close> with \<open>2^e \<le> x < 2^(e+1)\<close>, found by
  halving a number from 1 upwards and doubling a number below 1, and never below the
  exponent -1022 of the subnormal numbers. The bounds 1023 and 1022 on the number of
  steps are the largest and the smallest exponent of binary64.
\<close>

fun halvings :: "nat \<Rightarrow> real \<Rightarrow> nat" where
  "halvings 0 x = 0"
| "halvings (Suc n) x = (if x < 2 then 0 else Suc (halvings n (x / 2)))"

fun doublings :: "nat \<Rightarrow> real \<Rightarrow> nat" where
  "doublings 0 x = 0"
| "doublings (Suc n) x = (if 1 \<le> x then 0 else Suc (doublings n (x * 2)))"

definition exponent64 :: "real \<Rightarrow> int" where
  "exponent64 x = (if 1 \<le> x then int (halvings 1023 x) else - int (doublings 1022 x))"

text \<open>
  A number at or beyond \<open>2^1024 - 2^970\<close>, half way between the largest finite number and
  \<open>2^1024\<close>, rounds to an infinity.
\<close>

definition overflowBound :: real where
  "overflowBound = 2 ^ 1024 - 2 ^ 970"

text \<open>
  A number below the bound is rounded to a multiple of the spacing \<open>2^(e-52)\<close> of its
  binade, with a significand of 53 bits.
\<close>

definition round64 :: "real \<Rightarrow> jsnum" where
  "round64 x =
     (if overflowBound \<le> \<bar>x\<bar> then signedInf (x < 0)
      else (let q = 2 powi (exponent64 \<bar>x\<bar> - 52)
            in Fin (of_int (roundEven (x / q)) * q)))"

subsection \<open>The grid of the finite numbers\<close>

text \<open>
  Every finite binary64 number is an integer multiple of the smallest positive one,
  \<open>2^-1074\<close>. This is a notion of the proofs about rounding; the program does not
  compute it.
\<close>

definition onGrid :: "real \<Rightarrow> bool" where
  "onGrid y = (\<exists>k::int. y = of_int k * 2 powi (- 1074))"

subsection \<open>Arithmetic\<close>

fun jneg :: "jsnum \<Rightarrow> jsnum" where
  "jneg (Fin a) = Fin (- a)"
| "jneg PInf = NInf"
| "jneg NInf = PInf"
| "jneg NaN = NaN"

fun jadd :: "jsnum \<Rightarrow> jsnum \<Rightarrow> jsnum" where
  "jadd NaN _ = NaN"
| "jadd _ NaN = NaN"
| "jadd (Fin a) (Fin b) = round64 (a + b)"
| "jadd PInf NInf = NaN"
| "jadd NInf PInf = NaN"
| "jadd PInf _ = PInf"
| "jadd NInf _ = NInf"
| "jadd (Fin a) PInf = PInf"
| "jadd (Fin a) NInf = NInf"

definition jsub :: "jsnum \<Rightarrow> jsnum \<Rightarrow> jsnum" where
  "jsub a b = jadd a (jneg b)"

fun jmul :: "jsnum \<Rightarrow> jsnum \<Rightarrow> jsnum" where
  "jmul NaN _ = NaN"
| "jmul _ NaN = NaN"
| "jmul (Fin a) (Fin b) = round64 (a * b)"
| "jmul PInf (Fin b) = (if b = 0 then NaN else signedInf (b < 0))"
| "jmul NInf (Fin b) = (if b = 0 then NaN else signedInf (0 < b))"
| "jmul (Fin a) PInf = (if a = 0 then NaN else signedInf (a < 0))"
| "jmul (Fin a) NInf = (if a = 0 then NaN else signedInf (0 < a))"
| "jmul PInf PInf = PInf"
| "jmul NInf NInf = PInf"
| "jmul PInf NInf = NInf"
| "jmul NInf PInf = NInf"

fun jdiv :: "jsnum \<Rightarrow> jsnum \<Rightarrow> jsnum" where
  "jdiv NaN _ = NaN"
| "jdiv _ NaN = NaN"
| "jdiv (Fin a) (Fin b) =
     (if b = 0 then (if a = 0 then NaN else signedInf (a < 0)) else round64 (a / b))"
| "jdiv (Fin a) PInf = Fin 0"
| "jdiv (Fin a) NInf = Fin 0"
| "jdiv PInf (Fin b) = signedInf (b < 0)"
| "jdiv NInf (Fin b) = signedInf (0 \<le> b)"
| "jdiv PInf _ = NaN"
| "jdiv NInf _ = NaN"

text \<open>The comparison \<open>a > b\<close>: exact, and false as soon as one side is \<open>NaN\<close>.\<close>

fun jgt :: "jsnum \<Rightarrow> jsnum \<Rightarrow> bool" where
  "jgt NaN _ = False"
| "jgt _ NaN = False"
| "jgt (Fin a) (Fin b) = (b < a)"
| "jgt PInf PInf = False"
| "jgt PInf _ = True"
| "jgt NInf _ = False"
| "jgt (Fin a) PInf = False"
| "jgt (Fin a) NInf = True"

text \<open>\<open>typeof v === "number"\<close>, and the nullish test behind \<open>??\<close> and \<open>?.\<close>.\<close>

fun isNumber :: "jsval \<Rightarrow> bool" where
  "isNumber (JNum _) = True"
| "isNumber _ = False"

fun nullish :: "jsval \<Rightarrow> bool" where
  "nullish JUndefined = True"
| "nullish JNull = True"
| "nullish _ = False"

definition coalesce :: "jsval \<Rightarrow> jsval \<Rightarrow> jsval" where
  "coalesce a b = (if nullish a then b else a)"

section \<open>\<open>Number(string)\<close>\<close>

text \<open>
  The conversion of a string to a number follows the grammar of ECMAScript's
  StringNumericLiteral: surrounding white space is dropped, the empty string is 0,
  a decimal literal may carry a sign, a fraction and an exponent, \<open>Infinity\<close> may carry a
  sign, and the prefixes \<open>0x\<close>, \<open>0o\<close> and \<open>0b\<close> introduce unsigned integers.
  Anything else is \<open>NaN\<close>. The value of a literal is rounded to binary64, correctly
  whatever the number of its digits (ECMAScript lets an implementation cut a literal to
  20 significant digits first; the engines in use do not).

  A string is the sequence of the bytes of its UTF-8 encoding. The white space of
  ECMAScript (WhiteSpace and LineTerminator) is, in that encoding:
\<close>

definition whiteSequences :: "string list" where
  "whiteSequences =
     [[CHR 0x09], [CHR 0x0A], [CHR 0x0B], [CHR 0x0C], [CHR 0x0D], [CHR 0x20],
      [CHR 0xC2, CHR 0xA0],
      [CHR 0xE1, CHR 0x9A, CHR 0x80],
      [CHR 0xE2, CHR 0x80, CHR 0x80], [CHR 0xE2, CHR 0x80, CHR 0x81],
      [CHR 0xE2, CHR 0x80, CHR 0x82], [CHR 0xE2, CHR 0x80, CHR 0x83],
      [CHR 0xE2, CHR 0x80, CHR 0x84], [CHR 0xE2, CHR 0x80, CHR 0x85],
      [CHR 0xE2, CHR 0x80, CHR 0x86], [CHR 0xE2, CHR 0x80, CHR 0x87],
      [CHR 0xE2, CHR 0x80, CHR 0x88], [CHR 0xE2, CHR 0x80, CHR 0x89],
      [CHR 0xE2, CHR 0x80, CHR 0x8A],
      [CHR 0xE2, CHR 0x80, CHR 0xA8], [CHR 0xE2, CHR 0x80, CHR 0xA9],
      [CHR 0xE2, CHR 0x80, CHR 0xAF],
      [CHR 0xE2, CHR 0x81, CHR 0x9F],
      [CHR 0xE3, CHR 0x80, CHR 0x80],
      [CHR 0xEF, CHR 0xBB, CHR 0xBF]]"

text \<open>The first and the last bytes of the white space sequences.\<close>

definition whiteFirstBytes :: "char list" where
  "whiteFirstBytes = map hd whiteSequences"

definition whiteLastBytes :: "char list" where
  "whiteLastBytes = map last whiteSequences"

definition startsWith :: "string \<Rightarrow> string \<Rightarrow> bool" where
  "startsWith w s = (take (length w) s = w)"

definition endsWith :: "string \<Rightarrow> string \<Rightarrow> bool" where
  "endsWith w s = (length w \<le> length s \<and> drop (length s - length w) s = w)"

text \<open>The number of bytes of the white space at the start and at the end; 0 if none.\<close>

definition whiteAtStart :: "string \<Rightarrow> nat" where
  "whiteAtStart s =
     (case filter (\<lambda>w. startsWith w s) whiteSequences of [] \<Rightarrow> 0 | w # _ \<Rightarrow> length w)"

definition whiteAtEnd :: "string \<Rightarrow> nat" where
  "whiteAtEnd s =
     (case filter (\<lambda>w. endsWith w s) whiteSequences of [] \<Rightarrow> 0 | w # _ \<Rightarrow> length w)"

fun trimStart :: "nat \<Rightarrow> string \<Rightarrow> string" where
  "trimStart 0 s = s"
| "trimStart (Suc n) s = (if whiteAtStart s = 0 then s else trimStart n (drop (whiteAtStart s) s))"

fun trimEnd :: "nat \<Rightarrow> string \<Rightarrow> string" where
  "trimEnd 0 s = s"
| "trimEnd (Suc n) s =
     (if whiteAtEnd s = 0 then s else trimEnd n (take (length s - whiteAtEnd s) s))"

text \<open>No string holds more white space than it has bytes.\<close>

definition trim :: "string \<Rightarrow> string" where
  "trim s = trimEnd (length s) (trimStart (length s) s)"

definition isDigit :: "char \<Rightarrow> bool" where
  "isDigit c = (48 \<le> (of_char c :: nat) \<and> (of_char c :: nat) \<le> 57)"

text \<open>The value of a digit in a base up to 16, if it is one.\<close>

definition digitIn :: "nat \<Rightarrow> char \<Rightarrow> nat option" where
  "digitIn base c =
     (let k = (of_char c :: nat);
          v = (if 48 \<le> k \<and> k \<le> 57 then Some (k - 48)
               else if 97 \<le> k \<and> k \<le> 102 then Some (k - 87)
               else if 65 \<le> k \<and> k \<le> 70 then Some (k - 55)
               else None)
      in case v of None \<Rightarrow> None | Some d \<Rightarrow> (if d < base then Some d else None))"

fun digitsIn :: "nat \<Rightarrow> nat \<Rightarrow> string \<Rightarrow> nat option" where
  "digitsIn base acc [] = Some acc"
| "digitsIn base acc (c # cs) =
     (case digitIn base c of None \<Rightarrow> None | Some d \<Rightarrow> digitsIn base (acc * base + d) cs)"

text \<open>A nonempty run of digits of the base, as a natural number.\<close>

definition digitsVal :: "nat \<Rightarrow> string \<Rightarrow> nat option" where
  "digitsVal base s = (if s = [] then None else digitsIn base 0 s)"

text \<open>A possibly empty run of decimal digits.\<close>

definition optDigitsVal :: "string \<Rightarrow> nat option" where
  "optDigitsVal s = digitsIn 10 0 s"

definition parseExponent :: "string \<Rightarrow> int option" where
  "parseExponent s =
     (case s of
        [] \<Rightarrow> None
      | c # cs \<Rightarrow>
          (if c = CHR ''+'' then map_option int (digitsVal 10 cs)
           else if c = CHR ''-'' then map_option (\<lambda>n. - int n) (digitsVal 10 cs)
           else map_option int (digitsVal 10 s)))"

definition scale10 :: "real \<Rightarrow> int \<Rightarrow> real" where
  "scale10 m e = (if 0 \<le> e then m * 10 ^ nat e else m / 10 ^ nat (- e))"

definition parseMantissa :: "string \<Rightarrow> real option" where
  "parseMantissa m =
     (let ip = takeWhile (\<lambda>c. c \<noteq> CHR ''.'') m;
          rest = dropWhile (\<lambda>c. c \<noteq> CHR ''.'') m
      in if rest = [] then map_option real (digitsVal 10 ip)
         else
           (let fp = tl rest
            in if ip = [] \<and> fp = [] then None
               else (case (optDigitsVal ip, optDigitsVal fp) of
                       (Some i, Some f) \<Rightarrow> Some (real i + real f / 10 ^ length fp)
                     | _ \<Rightarrow> None)))"

definition isExpChar :: "char \<Rightarrow> bool" where
  "isExpChar c = (c = CHR ''e'' \<or> c = CHR ''E'')"

definition parseUnsigned :: "string \<Rightarrow> jsnum" where
  "parseUnsigned s =
     (if s = ''Infinity'' then PInf
      else
        (let m = takeWhile (\<lambda>c. \<not> isExpChar c) s;
             rest = dropWhile (\<lambda>c. \<not> isExpChar c) s;
             e = (if rest = [] then Some 0 else parseExponent (tl rest))
         in case (parseMantissa m, e) of
              (Some v, Some k) \<Rightarrow> round64 (scale10 v k)
            | _ \<Rightarrow> NaN))"

definition parseDecimal :: "string \<Rightarrow> jsnum" where
  "parseDecimal s =
     (case s of
        [] \<Rightarrow> NaN
      | c # cs \<Rightarrow>
          (if c = CHR ''+'' then parseUnsigned cs
           else if c = CHR ''-'' then jneg (parseUnsigned cs)
           else parseUnsigned s))"

definition parseNonDecimal :: "string \<Rightarrow> nat option" where
  "parseNonDecimal s =
     (case s of
        z # p # ds \<Rightarrow>
          (if z \<noteq> CHR ''0'' then None
           else if p = CHR ''x'' \<or> p = CHR ''X'' then digitsVal 16 ds
           else if p = CHR ''o'' \<or> p = CHR ''O'' then digitsVal 8 ds
           else if p = CHR ''b'' \<or> p = CHR ''B'' then digitsVal 2 ds
           else None)
      | _ \<Rightarrow> None)"

definition stringToNumber :: "string \<Rightarrow> jsnum" where
  "stringToNumber s =
     (let t = trim s
      in if t = [] then Fin 0
         else (case parseNonDecimal t of
                 Some n \<Rightarrow> round64 (real n)
               | None \<Rightarrow> parseDecimal t))"

text \<open>\<open>Number(v)\<close> on any value.\<close>

fun Number :: "jsval \<Rightarrow> jsnum" where
  "Number JUndefined = NaN"
| "Number JNull = Fin 0"
| "Number (JBool b) = Fin (if b then 1 else 0)"
| "Number (JNum n) = n"
| "Number (JStr s) = stringToNumber s"

section \<open>The form state of \<open>WaccForm\<close>\<close>

text \<open>
  The eight fields of the form are the texts of the input boxes. The answer of the API,
  once one has arrived, is an object whose fields are read with \<open>result?.field\<close>: a field
  the object lacks reads as \<open>undefined\<close>, and so does every field while \<open>result\<close> is
  \<open>null\<close>.
\<close>

record form =
  equityValue :: string
  debtValue :: string
  re :: string
  rf :: string
  beta :: string
  marketRiskPremium :: string
  rd :: string
  taxRate :: string

record api_result =
  r_wacc :: jsval
  r_re :: jsval
  r_rd :: jsval
  r_taxRate :: jsval
  r_weightE :: jsval
  r_weightD :: jsval

record state =
  form :: form
  result :: "api_result option"

text \<open>\<open>result?.field\<close>\<close>

definition optField :: "(api_result \<Rightarrow> jsval) \<Rightarrow> state \<Rightarrow> jsval" where
  "optField field st = (case result st of None \<Rightarrow> JUndefined | Some r \<Rightarrow> field r)"

subsection \<open>Values for the formula panel\<close>

text \<open>\<open>croreToNumber = (cr) => Number(cr || 0) * 10000000\<close>\<close>

definition croreToNumber :: "string \<Rightarrow> jsnum" where
  "croreToNumber cr = jmul (if cr = [] then Fin 0 else stringToNumber cr) (Fin 10000000)"

definition E_rupees :: "state \<Rightarrow> jsnum" where
  "E_rupees st = croreToNumber (equityValue (form st))"

definition D_rupees :: "state \<Rightarrow> jsnum" where
  "D_rupees st = croreToNumber (debtValue (form st))"

definition V_rupees :: "state \<Rightarrow> jsnum" where
  "V_rupees st = jadd (E_rupees st) (D_rupees st)"

text \<open>\<open>form.x ? Number(form.x) / 100 : undefined\<close>: a string is truthy when it is not empty.\<close>

definition percentOrUndefined :: "string \<Rightarrow> jsval" where
  "percentOrUndefined s = (if s \<noteq> [] then JNum (jdiv (stringToNumber s) (Fin 100)) else JUndefined)"

definition Re_dec :: "state \<Rightarrow> jsval" where
  "Re_dec st = coalesce (optField r_re st) (percentOrUndefined (re (form st)))"

definition Rd_dec :: "state \<Rightarrow> jsval" where
  "Rd_dec st = coalesce (optField r_rd st) (percentOrUndefined (rd (form st)))"

definition Tc_dec :: "state \<Rightarrow> jsval" where
  "Tc_dec st = coalesce (optField r_taxRate st) (percentOrUndefined (taxRate (form st)))"

definition weightE_input :: "state \<Rightarrow> jsval" where
  "weightE_input st =
     (if jgt (V_rupees st) (Fin 0) then JNum (jdiv (E_rupees st) (V_rupees st)) else JUndefined)"

definition weightD_input :: "state \<Rightarrow> jsval" where
  "weightD_input st =
     (if jgt (V_rupees st) (Fin 0) then JNum (jdiv (D_rupees st) (V_rupees st)) else JUndefined)"

text \<open>Final weights: the API's when it is a number, otherwise derived from the inputs.\<close>

definition weightE :: "state \<Rightarrow> jsval" where
  "weightE st =
     (if isNumber (optField r_weightE st) then optField r_weightE st
      else coalesce (coalesce (weightE_input st) (optField r_weightE st)) (JNum (Fin 0)))"

definition weightD :: "state \<Rightarrow> jsval" where
  "weightD st =
     (if isNumber (optField r_weightD st) then optField r_weightD st
      else coalesce (coalesce (weightD_input st) (optField r_weightD st)) (JNum (Fin 0)))"

text \<open>
  The fallback WACC. Each guarded product is only formed from numbers, and a guard that
  fails contributes 0; the product \<open>weightD * Rd_dec * (1 - Tc_dec)\<close> associates to the
  left.
\<close>

definition waccComputed :: "state \<Rightarrow> jsnum" where
  "waccComputed st =
     jadd
       (case (weightE st, Re_dec st) of
          (JNum w, JNum r) \<Rightarrow> jmul w r
        | _ \<Rightarrow> Fin 0)
       (case (weightD st, Rd_dec st, Tc_dec st) of
          (JNum w, JNum r, JNum t) \<Rightarrow> jmul (jmul w r) (jsub (Fin 1) t)
        | _ \<Rightarrow> Fin 0)"

subsection \<open>The request built by \<open>submit\<close>\<close>

text \<open>
  \<open>submit\<close> builds the request object and posts it; the transport and the remote
  computation are outside the component. The four fields \<open>equityValue\<close>, \<open>debtValue\<close>,
  \<open>rd\<close> and \<open>taxRate\<close> are always properties of the object (the last two possibly with the
  value \<open>undefined\<close>); \<open>re\<close>, \<open>rf\<close>, \<open>beta\<close> and \<open>marketRiskPremium\<close> are properties only when
  assigned, so they are optional here and \<open>None\<close> is a property that was never set.
\<close>

definition croreToRupees :: jsnum where
  "croreToRupees = Fin 10000000"

definition toDecimal :: "string \<Rightarrow> jsval" where
  "toDecimal val = (if val = [] then JUndefined else JNum (jdiv (stringToNumber val) (Fin 100)))"

record payload =
  p_equityValue :: jsnum
  p_debtValue :: jsnum
  p_rd :: jsval
  p_taxRate :: jsval
  p_re :: "jsval option"
  p_rf :: "jsval option"
  p_beta :: "jsnum option"
  p_marketRiskPremium :: "jsval option"

text \<open>\<open>Number(form.x || 0) * croreToRupees\<close>\<close>

definition scaleCrore :: "string \<Rightarrow> jsnum" where
  "scaleCrore s = jmul (if s = [] then Fin 0 else stringToNumber s) croreToRupees"

definition submitPayload :: "form \<Rightarrow> payload" where
  "submitPayload f =
     (let base = \<lparr> p_equityValue = scaleCrore (equityValue f),
                   p_debtValue = scaleCrore (debtValue f),
                   p_rd = toDecimal (rd f),
                   p_taxRate = toDecimal (taxRate f),
                   p_re = None, p_rf = None, p_beta = None, p_marketRiskPremium = None \<rparr>
      in if re f \<noteq> [] then base\<lparr> p_re := Some (toDecimal (re f)) \<rparr>
         else if rf f \<noteq> [] \<and> beta f \<noteq> [] \<and> marketRiskPremium f \<noteq> []
         then base\<lparr> p_rf := Some (toDecimal (rf f)),
                     p_beta := Some (stringToNumber (beta f)),
                     p_marketRiskPremium := Some (toDecimal (marketRiskPremium f)) \<rparr>
         else base)"


section \<open>The formatting helper\<close>

text \<open>
  \<open>Number.prototype.toLocaleString(undefined, {minimumFractionDigits: dp,
  maximumFractionDigits: dp})\<close> formats in the default locale of the runtime, which is a
  parameter here: its decimal and group separators, the sizes of its groups, and its
  signs for minus, infinity and not-a-number. Digits are the Latin digits. As in
  ECMAScript's Intl, the text is the concatenation of typed parts: the absolute value is
  rounded half away from zero to \<open>dp\<close> fraction digits, the integer digits are grouped
  from the right, and a decimal separator and a fraction follow when \<open>dp\<close> is not 0. A
  number of fraction digits above 100 raises a \<open>RangeError\<close>.

  The digits are those of the exact value of the number, as ECMA-402 states the
  rounding; how the last digit is rounded bears on no property proved below, which are
  about the number of fraction digits and about the dash.

  A negative number keeps its minus sign when it rounds to zero, and the negative zero
  is rendered with a minus sign. The numbers of this theory do not carry the sign of
  zero, so whether a zero argument is the negative zero is the parameter
  \<open>negativeZero\<close> of the rendering.
\<close>

datatype error = RangeError

record numberLocale =
  decimalSep :: string
  groupSep :: string
  primaryGroup :: nat
  secondaryGroup :: nat
  minusSign :: string
  infinitySym :: string
  nanSym :: string

definition infinitySign :: string where
  "infinitySign = [CHR 0xE2, CHR 0x88, CHR 0x9E]"

definition enUS :: numberLocale where
  "enUS = \<lparr> decimalSep = ''.'', groupSep = '','', primaryGroup = 3, secondaryGroup = 3,
            minusSign = ''-'', infinitySym = infinitySign, nanSym = ''NaN'' \<rparr>"

definition deDE :: numberLocale where
  "deDE = \<lparr> decimalSep = '','', groupSep = ''.'', primaryGroup = 3, secondaryGroup = 3,
            minusSign = ''-'', infinitySym = infinitySign, nanSym = ''NaN'' \<rparr>"

definition enIN :: numberLocale where
  "enIN = \<lparr> decimalSep = ''.'', groupSep = '','', primaryGroup = 3, secondaryGroup = 2,
            minusSign = ''-'', infinitySym = infinitySign, nanSym = ''NaN'' \<rparr>"

datatype partType = MinusSign | Integer | Group | Decimal | Fraction | InfinityPart | NanPart

type_synonym part = "partType \<times> string"

definition digitChar :: "nat \<Rightarrow> char" where
  "digitChar d = char_of (48 + d)"

fun showNat :: "nat \<Rightarrow> string" where
  "showNat n = (if n < 10 then [digitChar n] else showNat (n div 10) @ [digitChar (n mod 10)])"

declare showNat.simps [simp del]

text \<open>Groups of \<open>k\<close> digits cut from the right of the digits that are left.\<close>

fun higherGroups :: "nat \<Rightarrow> nat \<Rightarrow> string \<Rightarrow> string list" where
  "higherGroups 0 k ds = [ds]"
| "higherGroups (Suc n) k ds =
     (if k = 0 \<or> length ds \<le> k then [ds]
      else higherGroups n k (take (length ds - k) ds) @ [drop (length ds - k) ds])"

definition splitGroups :: "numberLocale \<Rightarrow> string \<Rightarrow> string list" where
  "splitGroups loc ds =
     (if primaryGroup loc = 0 \<or> length ds \<le> primaryGroup loc then [ds]
      else higherGroups (length ds) (secondaryGroup loc) (take (length ds - primaryGroup loc) ds)
           @ [drop (length ds - primaryGroup loc) ds])"

fun joinGroups :: "string \<Rightarrow> string list \<Rightarrow> part list" where
  "joinGroups sep [] = []"
| "joinGroups sep [g] = [(Integer, g)]"
| "joinGroups sep (g # gs) = (Integer, g) # (Group, sep) # joinGroups sep gs"

definition padFraction :: "nat \<Rightarrow> nat \<Rightarrow> string" where
  "padFraction dp k = replicate (dp - length (showNat k)) (CHR ''0'') @ showNat k"

definition finiteParts :: "numberLocale \<Rightarrow> bool \<Rightarrow> real \<Rightarrow> nat \<Rightarrow> part list" where
  "finiteParts loc negativeZero x dp =
     (let q = nat \<lfloor>\<bar>x\<bar> * 10 ^ dp + 1 / 2\<rfloor>;
          ip = q div 10 ^ dp;
          fp = q mod 10 ^ dp
      in (if x < 0 \<or> (x = 0 \<and> negativeZero) then [(MinusSign, minusSign loc)] else [])
         @ joinGroups (groupSep loc) (splitGroups loc (showNat ip))
         @ (if dp = 0 then [] else [(Decimal, decimalSep loc), (Fraction, padFraction dp fp)]))"

definition formatToParts :: "numberLocale \<Rightarrow> bool \<Rightarrow> jsnum \<Rightarrow> nat \<Rightarrow> part list" where
  "formatToParts loc negativeZero n dp =
     (case n of
        NaN \<Rightarrow> [(NanPart, nanSym loc)]
      | PInf \<Rightarrow> [(InfinityPart, infinitySym loc)]
      | NInf \<Rightarrow> [(MinusSign, minusSign loc), (InfinityPart, infinitySym loc)]
      | Fin x \<Rightarrow> finiteParts loc negativeZero x dp)"

definition partsText :: "part list \<Rightarrow> string" where
  "partsText ps = concat (map snd ps)"

definition toLocaleString :: "numberLocale \<Rightarrow> bool \<Rightarrow> jsnum \<Rightarrow> nat \<Rightarrow> error + string" where
  "toLocaleString loc negativeZero n dp =
     (if 100 < dp then Inl RangeError
      else Inr (partsText (formatToParts loc negativeZero n dp)))"

text \<open>
  \<open>fmt = (n, dp = 2) => ...\<close>: the second argument is optional. \<open>Number.isNaN(n)\<close> holds
  only of the number \<open>NaN\<close>, not of a value that would convert to it.
\<close>

definition fmt :: "numberLocale \<Rightarrow> bool \<Rightarrow> jsval \<Rightarrow> nat option \<Rightarrow> error + string" where
  "fmt loc negativeZero n dpo =
     (let dp = (case dpo of None \<Rightarrow> 2 | Some d \<Rightarrow> d)
      in if n = JUndefined \<or> n = JNull \<or> n = JNum NaN then Inr ''-''
         else toLocaleString loc negativeZero (Number n) dp)"



text \<open>
  A locale whose signs for infinity and not-a-number cannot be mistaken for the dash
  that \<open>fmt\<close> prints for a missing value.
\<close>

definition plainSymbols :: "numberLocale \<Rightarrow> bool" where
  "plainSymbols loc =
     (nanSym loc \<noteq> ''-'' \<and> infinitySym loc \<noteq> [] \<and> infinitySym loc \<noteq> ''-'')"

section \<open>Scenarios\<close>

text \<open>
  The worked scenario: equity 200 and debt 50 (in crore), a cost of equity of 12 percent,
  a cost of debt of 5 percent and a tax rate of 25 percent, typed into the form, before
  any API answer.
\<close>

definition workedForm :: form where
  "workedForm =
     \<lparr> equityValue = ''200'', debtValue = ''50'', re = ''12'', rf = '''', beta = '''',
       marketRiskPremium = '''', rd = ''5'', taxRate = ''25'' \<rparr>"

definition workedScenario :: state where
  "workedScenario = \<lparr> form = workedForm, result = None \<rparr>"

text \<open>The same form with a full CAPM triple typed in beside the explicit cost of equity.\<close>

definition capmForm :: form where
  "capmForm = workedForm\<lparr> rf := ''4'', beta := ''1.2'', marketRiskPremium := ''6'' \<rparr>"

text \<open>No explicit cost of equity, and a CAPM triple that lacks beta.\<close>

definition missingBetaForm :: form where
  "missingBetaForm = workedForm\<lparr> re := '''', rf := ''4'', marketRiskPremium := ''6'' \<rparr>"

definition missingBetaState :: state where
  "missingBetaState = \<lparr> form = missingBetaForm, result = None \<rparr>"

text \<open>A text that is no number in the cost-of-equity box.\<close>

definition garbledForm :: form where
  "garbledForm = workedForm\<lparr> re := ''abc'' \<rparr>"

definition garbledState :: state where
  "garbledState = \<lparr> form = garbledForm, result = None \<rparr>"

text \<open>
  The API answer to the worked scenario, as the numbers its JSON text denotes, held in
  \<open>result\<close> while the form is edited: to equity and debt both 0, and to equity and debt
  both 50.
\<close>

definition staleResult :: api_result where
  "staleResult =
     \<lparr> r_wacc = JNum (stringToNumber ''0.1035''), r_re = JNum (stringToNumber ''0.12''),
       r_rd = JNum (stringToNumber ''0.05''), r_taxRate = JNum (stringToNumber ''0.25''),
       r_weightE = JNum (stringToNumber ''0.8''), r_weightD = JNum (stringToNumber ''0.2'') \<rparr>"

definition degenerateForm :: form where
  "degenerateForm = workedForm\<lparr> equityValue := ''0'', debtValue := ''0'' \<rparr>"

definition degenerateFresh :: state where
  "degenerateFresh = \<lparr> form = degenerateForm, result = None \<rparr>"

definition degenerateStale :: state where
  "degenerateStale = \<lparr> form = degenerateForm, result = Some staleResult \<rparr>"

definition evenStale :: state where
  "evenStale = \<lparr> form = workedForm\<lparr> equityValue := ''50'' \<rparr>, result = Some staleResult \<rparr>"

text \<open>Equity and debt so large that their sum overflows.\<close>

definition hugeState :: state where
  "hugeState =
     \<lparr> form = workedForm\<lparr> equityValue := ''1e301'', debtValue := ''1e301'' \<rparr>, result = None \<rparr>"

section \<open>Facts about rounding\<close>

lemma roundEven_error: "\<bar>of_int (roundEven r) - r\<bar> \<le> 1 / 2"
proof -
  have "of_int \<lfloor>r\<rfloor> \<le> r" and "r < of_int \<lfloor>r\<rfloor> + 1"
    by linarith+
  then show ?thesis
    by (auto simp add: roundEven_def Let_def)
qed

lemma roundEven_of_int: "roundEven (of_int k) = k"
  by (simp add: roundEven_def)

lemma halvings_spec:
  "1 \<le> x \<Longrightarrow> x < 2 ^ Suc n \<Longrightarrow>
   2 ^ halvings n x \<le> x \<and> x < 2 ^ Suc (halvings n x) \<and> halvings n x \<le> n"
proof (induction n arbitrary: x)
  case 0
  then show ?case by simp
next
  case (Suc n)
  show ?case
  proof (cases "x < 2")
    case True
    with Suc.prems show ?thesis by simp
  next
    case False
    then have "1 \<le> x / 2" and "x / 2 < 2 ^ Suc n"
      using Suc.prems by simp_all
    from Suc.IH [OF this] False show ?thesis
      by (simp add: field_simps)
  qed
qed

lemma doublings_spec:
  "0 < x \<Longrightarrow>
   doublings n x \<le> n
   \<and> (doublings n x < n \<longrightarrow> 1 \<le> x * 2 ^ doublings n x)
   \<and> (0 < doublings n x \<longrightarrow> x * 2 ^ doublings n x < 2)"
proof (induction n arbitrary: x)
  case 0
  then show ?case by simp
next
  case (Suc n)
  show ?case
  proof (cases "1 \<le> x")
    case True
    then show ?thesis by simp
  next
    case False
    have "0 < x * 2" using Suc.prems by simp
    from Suc.IH [OF this] False show ?thesis
      by (cases "doublings n (x * 2) = 0") (auto simp add: mult.assoc)
  qed
qed

lemma doublings_positive: "x < 1 \<Longrightarrow> 0 < n \<Longrightarrow> 0 < doublings n x"
  by (cases n) simp_all

lemma doublings_zero: "doublings n 0 = n"
  by (induction n) simp_all

lemma pow2_neg: "(2::real) powi (- int k) = 1 / 2 ^ k"
  by (simp add: power_int_minus divide_inverse)

lemma pow2_succ: "(2::real) powi (e + 1) = 2 * 2 powi e"
  by (simp add: power_int_add)

lemma pow2_less_cancel: "(2::real) powi a < 2 powi b \<Longrightarrow> a < b"
proof (rule ccontr)
  assume "2 powi a < (2::real) powi b" and "\<not> a < b"
  then have "(2::real) powi b \<le> 2 powi a"
    by (intro power_int_increasing) simp_all
  with \<open>2 powi a < (2::real) powi b\<close> show False by simp
qed

lemma exponent64_range: "- 1022 \<le> exponent64 x \<and> exponent64 x \<le> 1023"
proof (cases "1 \<le> x")
  case True
  show ?thesis
  proof (cases "x < 2 ^ Suc 1023")
    case True
    with \<open>1 \<le> x\<close> halvings_spec [of x 1023] show ?thesis
      by (simp add: exponent64_def)
  next
    case False
    have "halvings n y \<le> n" for n y
      by (induction n arbitrary: y) simp_all
    from this [of 1023 x] \<open>1 \<le> x\<close> show ?thesis
      by (simp add: exponent64_def)
  qed
next
  case False
  have "doublings n y \<le> n" for n y
    by (induction n arbitrary: y) simp_all
  from this [of 1022 x] False show ?thesis
    by (simp add: exponent64_def)
qed

lemma exponent64_upper:
  assumes "0 < x" and "x < 2 ^ 1024"
  shows "x < 2 powi (exponent64 x + 1)"
proof (cases "1 \<le> x")
  case True
  with assms halvings_spec [of x 1023] have "x < 2 ^ Suc (halvings 1023 x)"
    by simp
  also have "2 ^ Suc (halvings 1023 x) = (2::real) powi (int (halvings 1023 x) + 1)"
    by (simp add: power_int_add)
  finally show ?thesis
    using True by (simp add: exponent64_def)
next
  case False
  define k where "k = doublings 1022 x"
  have "0 < k"
    unfolding k_def using False by (intro doublings_positive) simp_all
  with doublings_spec [OF assms(1), of 1022] have "x * 2 ^ k < 2"
    by (simp add: k_def)
  then have "x < 2 / 2 ^ k"
    by (simp add: field_simps)
  also have "2 / 2 ^ k = (2::real) powi (- int k + 1)"
    unfolding pow2_succ pow2_neg by simp
  finally show ?thesis
    using False by (simp add: exponent64_def k_def)
qed

lemma exponent64_lower:
  assumes "2 powi (- 1022) \<le> x" and "x < 2 ^ 1024"
  shows "2 powi exponent64 x \<le> x"
proof (cases "1 \<le> x")
  case True
  with assms halvings_spec [of x 1023] have "2 ^ halvings 1023 x \<le> x"
    by simp
  then show ?thesis
    using True by (simp add: exponent64_def)
next
  case False
  define k where "k = doublings 1022 x"
  have pos: "0 < x"
    using assms(1) by (rule less_le_trans [rotated]) simp
  show ?thesis
  proof (cases "k < 1022")
    case True
    with doublings_spec [OF pos, of 1022] have "1 \<le> x * 2 ^ k"
      by (simp add: k_def)
    then have "1 / 2 ^ k \<le> x"
      by (simp add: field_simps)
    moreover have "1 / 2 ^ k = (2::real) powi (- int k)"
      by (simp add: pow2_neg)
    ultimately show ?thesis
      using False by (simp add: exponent64_def k_def)
  next
    case False
    with doublings_spec [OF pos, of 1022] have "k = 1022"
      by (simp add: k_def)
    with assms(1) \<open>\<not> 1 \<le> x\<close> show ?thesis
      by (simp add: exponent64_def k_def)
  qed
qed

lemma exponent64_small:
  assumes "0 \<le> x" and "x < 2 powi (- 1022)"
  shows "exponent64 x = - 1022"
proof (cases "x = 0")
  case True
  then show ?thesis
    by (simp add: exponent64_def doublings_zero)
next
  case False
  with assms(1) have pos: "0 < x" by simp
  have "(2::real) powi (- 1022) \<le> 1"
    by (simp add: power_int_minus field_simps)
  with assms(2) have lt1: "x < 1" by simp
  have "\<not> doublings 1022 x < 1022"
  proof
    assume a: "doublings 1022 x < 1022"
    with doublings_spec [OF pos, of 1022] have "1 \<le> x * 2 ^ doublings 1022 x"
      by simp
    then have "1 / 2 ^ doublings 1022 x \<le> x"
      by (simp add: field_simps)
    moreover have "(1::real) / 2 ^ 1022 \<le> 1 / 2 ^ doublings 1022 x"
      using a by (intro divide_left_mono power_increasing) simp_all
    moreover have "(2::real) powi (- 1022) = 1 / 2 ^ 1022"
      by (simp add: power_int_minus field_simps)
    ultimately show False
      using assms(2) by linarith
  qed
  with doublings_spec [OF pos, of 1022] have "doublings 1022 x = 1022"
    by simp
  with lt1 show ?thesis
    by (simp add: exponent64_def)
qed

text \<open>The binade of a number is unique.\<close>

lemma exponent64_eq:
  assumes "2 powi e \<le> x" and "x < 2 powi (e + 1)" and "- 1022 \<le> e" and "e \<le> 1023"
  shows "exponent64 x = e"
proof -
  have pos: "0 < x"
    using assms(1) by (rule less_le_trans [rotated]) simp
  have "(2::real) powi (e + 1) \<le> 2 powi 1024"
    using assms(4) by (intro power_int_increasing) simp_all
  with assms(2) have up: "x < 2 ^ 1024" by simp
  have "(2::real) powi (- 1022) \<le> 2 powi e"
    using assms(3) by (intro power_int_increasing) simp_all
  with assms(1) have low: "2 powi (- 1022) \<le> x" by simp
  let ?f = "exponent64 x"
  have a: "2 powi ?f \<le> x" and b: "x < 2 powi (?f + 1)"
    using exponent64_lower [OF low up] exponent64_upper [OF pos up] by simp_all
  have "(2::real) powi ?f < 2 powi (e + 1)"
    using a assms(2) by linarith
  then have "?f < e + 1"
    by (rule pow2_less_cancel)
  moreover have "(2::real) powi e < 2 powi (?f + 1)"
    using b assms(1) by linarith
  then have "e < ?f + 1"
    by (rule pow2_less_cancel)
  ultimately show ?thesis by simp
qed

lemma overflowBound_less: "overflowBound < 2 ^ 1024"
  by (simp add: overflowBound_def)

lemma round64_finite:
  "\<bar>x\<bar> < overflowBound \<Longrightarrow>
   round64 x = Fin (of_int (roundEven (x / 2 powi (exponent64 \<bar>x\<bar> - 52)))
                    * 2 powi (exponent64 \<bar>x\<bar> - 52))"
  by (simp add: round64_def Let_def)

lemma round64_overflow: "overflowBound \<le> \<bar>x\<bar> \<Longrightarrow> round64 x = signedInf (x < 0)"
  by (simp add: round64_def)

lemma round64_cases:
  obtains y where "\<bar>x\<bar> < overflowBound" and "round64 x = Fin y"
  | "overflowBound \<le> \<bar>x\<bar>" and "round64 x = signedInf (x < 0)"
  by (cases "\<bar>x\<bar> < overflowBound") (simp_all add: round64_finite round64_overflow)

lemma round64_Fin_bound: "round64 x = Fin y \<Longrightarrow> \<bar>x\<bar> < overflowBound"
  by (auto simp add: round64_def signedInf_def split: if_splits)

lemma round64_not_NaN: "round64 x \<noteq> NaN"
  by (simp add: round64_def Let_def signedInf_def)

lemma round64_error_quantum:
  assumes "round64 x = Fin y"
  shows "\<bar>y - x\<bar> \<le> 2 powi (exponent64 \<bar>x\<bar> - 53)"
proof -
  define q :: real where "q = 2 powi (exponent64 \<bar>x\<bar> - 52)"
  have qpos: "0 < q" by (simp add: q_def)
  have fin: "\<bar>x\<bar> < overflowBound"
    using assms by (rule round64_Fin_bound)
  then have y: "y = of_int (roundEven (x / q)) * q"
    using assms by (simp add: round64_finite q_def)
  have "y - x = (of_int (roundEven (x / q)) - x / q) * q"
    using qpos by (simp add: y field_simps)
  then have "\<bar>y - x\<bar> = \<bar>of_int (roundEven (x / q)) - x / q\<bar> * q"
    using qpos by (simp add: abs_mult)
  also have "\<dots> \<le> 1 / 2 * q"
    using qpos roundEven_error [of "x / q"] by (intro mult_right_mono) simp_all
  also have "1 / 2 * q = 2 powi (exponent64 \<bar>x\<bar> - 53)"
    using pow2_succ [of "exponent64 \<bar>x\<bar> - 53"] by (simp add: q_def)
  finally show ?thesis .
qed

lemma round64_error_rel:
  assumes "round64 x = Fin y" and "2 powi (- 1022) \<le> \<bar>x\<bar>"
  shows "\<bar>y - x\<bar> \<le> \<bar>x\<bar> / 2 ^ 53"
proof -
  have fin: "\<bar>x\<bar> < overflowBound"
    using assms(1) by (rule round64_Fin_bound)
  with overflowBound_less have "\<bar>x\<bar> < 2 ^ 1024" by simp
  from exponent64_lower [OF assms(2) this] have "2 powi exponent64 \<bar>x\<bar> \<le> \<bar>x\<bar>" .
  moreover have "(2::real) powi (exponent64 \<bar>x\<bar> - 53) = 2 powi exponent64 \<bar>x\<bar> / 2 ^ 53"
    by (simp add: power_int_diff)
  ultimately have "2 powi (exponent64 \<bar>x\<bar> - 53) \<le> \<bar>x\<bar> / 2 ^ 53"
    by (simp add: divide_right_mono)
  with round64_error_quantum [OF assms(1)] show ?thesis by simp
qed

lemma round64_error:
  assumes "round64 x = Fin y"
  shows "\<bar>y - x\<bar> \<le> \<bar>x\<bar> / 2 ^ 53 + 2 powi (- 1075)"
proof (cases "2 powi (- 1022) \<le> \<bar>x\<bar>")
  case True
  from round64_error_rel [OF assms True] show ?thesis
    by (rule order_trans) simp
next
  case False
  then have "exponent64 \<bar>x\<bar> = - 1022"
    by (intro exponent64_small) simp_all
  with round64_error_quantum [OF assms] have "\<bar>y - x\<bar> \<le> 2 powi (- 1075)"
    by simp
  then show ?thesis
    by (rule order_trans) simp
qed

lemma pow2_split: "(2::real) powi (int n + k) = 2 ^ n * 2 powi k"
  by (simp add: power_int_add)

lemma round64_onGrid:
  assumes "round64 x = Fin y"
  shows "onGrid y"
proof -
  define e where "e = exponent64 \<bar>x\<bar>"
  have fin: "\<bar>x\<bar> < overflowBound"
    using assms by (rule round64_Fin_bound)
  then have y: "y = of_int (roundEven (x / 2 powi (e - 52))) * 2 powi (e - 52)"
    using assms by (simp add: round64_finite e_def)
  have "- 1022 \<le> e"
    using exponent64_range [of "\<bar>x\<bar>"] by (simp add: e_def)
  then have "e - 52 = int (nat (e + 1022)) + (- 1074)"
    by simp
  then have "(2::real) powi (e - 52) = 2 ^ nat (e + 1022) * 2 powi (- 1074)"
    by (simp only: pow2_split)
  then have "y = of_int (roundEven (x / 2 powi (e - 52)) * 2 ^ nat (e + 1022)) * 2 powi (- 1074)"
    by (simp add: y)
  then show ?thesis
    unfolding onGrid_def by blast
qed

lemma round64_exact_small:
  assumes "onGrid x" and "\<bar>x\<bar> < 2 powi (- 1021)"
  shows "round64 x = Fin x"
proof -
  obtain k :: int where k: "x = of_int k * 2 powi (- 1074)"
    using assms(1) by (auto simp add: onGrid_def)
  have "(2::real) powi (- 1021) < overflowBound"
    by (simp add: overflowBound_def power_int_minus field_simps)
  with assms(2) have fin: "\<bar>x\<bar> < overflowBound" by simp
  have e: "exponent64 \<bar>x\<bar> = - 1022"
  proof (cases "2 powi (- 1022) \<le> \<bar>x\<bar>")
    case True
    with assms(2) show ?thesis
      by (intro exponent64_eq) simp_all
  next
    case False
    then show ?thesis
      by (intro exponent64_small) simp_all
  qed
  have "x / 2 powi (- 1074) = of_int k"
    by (simp add: k)
  then show ?thesis
    using fin e by (simp add: round64_finite roundEven_of_int k)
qed

lemma onGrid_add: "onGrid a \<Longrightarrow> onGrid b \<Longrightarrow> onGrid (a + b)"
  unfolding onGrid_def
proof -
  assume "\<exists>k::int. a = of_int k * 2 powi (- 1074)" and "\<exists>k::int. b = of_int k * 2 powi (- 1074)"
  then obtain i j :: int where "a = of_int i * 2 powi (- 1074)" and "b = of_int j * 2 powi (- 1074)"
    by blast
  then have "a + b = of_int (i + j) * 2 powi (- 1074)"
    by (simp add: algebra_simps)
  then show "\<exists>k::int. a + b = of_int k * 2 powi (- 1074)"
    by blast
qed

text \<open>The sum of two finite numbers carries a relative error only.\<close>

lemma round64_add_error:
  assumes "onGrid a" and "onGrid b" and "round64 (a + b) = Fin v"
  shows "\<bar>v - (a + b)\<bar> \<le> \<bar>a + b\<bar> / 2 ^ 53"
proof (cases "\<bar>a + b\<bar> < 2 powi (- 1021)")
  case True
  with onGrid_add [OF assms(1,2)] have "round64 (a + b) = Fin (a + b)"
    by (rule round64_exact_small)
  with assms(3) show ?thesis by simp
next
  case False
  have "(2::real) powi (- 1022) \<le> 2 powi (- 1021)"
    by (intro power_int_increasing) simp_all
  with False have "2 powi (- 1022) \<le> \<bar>a + b\<bar>" by simp
  with assms(3) show ?thesis
    by (rule round64_error_rel)
qed

text \<open>Evaluation at a number whose binade is known.\<close>

lemma round64_eval:
  assumes "2 powi e \<le> \<bar>x\<bar>" and "\<bar>x\<bar> < 2 powi (e + 1)" and "- 1022 \<le> e" and "e \<le> 1023"
    and "\<bar>x\<bar> < overflowBound"
  shows "round64 x = Fin (of_int (roundEven (x / 2 powi (e - 52))) * 2 powi (e - 52))"
  using exponent64_eq [OF assms(1-4)] assms(5) by (simp add: round64_finite)

lemma round64_zero: "round64 0 = Fin 0"
  by (rule round64_exact_small) (simp_all add: onGrid_def)

subsection \<open>A rounded number rounds to itself\<close>

lemma roundEven_abs_error: "\<bar>of_int \<bar>roundEven r\<bar> - \<bar>r\<bar>\<bar> \<le> 1 / 2"
proof -
  have "\<bar>\<bar>of_int (roundEven r)\<bar> - \<bar>r\<bar>\<bar> \<le> \<bar>of_int (roundEven r) - r\<bar>"
    by (rule abs_triangle_ineq3)
  with roundEven_error [of r] show ?thesis
    by simp
qed

lemma roundEven_abs_lower: "of_int k \<le> \<bar>r\<bar> \<Longrightarrow> k \<le> \<bar>roundEven r\<bar>"
proof -
  assume "of_int k \<le> \<bar>r\<bar>"
  with roundEven_abs_error [of r] have "real_of_int k - 1 < of_int \<bar>roundEven r\<bar>"
    by linarith
  then have "real_of_int (k - 1) < of_int \<bar>roundEven r\<bar>"
    by simp
  then have "k - 1 < \<bar>roundEven r\<bar>"
    by (simp only: of_int_less_iff)
  then show ?thesis by simp
qed

lemma roundEven_abs_upper: "\<bar>r\<bar> < of_int k + 1 / 2 \<Longrightarrow> \<bar>roundEven r\<bar> \<le> k"
proof -
  assume "\<bar>r\<bar> < of_int k + 1 / 2"
  with roundEven_abs_error [of r] have "of_int \<bar>roundEven r\<bar> < real_of_int k + 1"
    by linarith
  then have "real_of_int \<bar>roundEven r\<bar> < of_int (k + 1)"
    by simp
  then have "\<bar>roundEven r\<bar> < k + 1"
    by (simp only: of_int_less_iff)
  then show ?thesis by simp
qed

lemma roundEven_real_upper: "\<bar>r\<bar> \<le> 2 ^ n \<Longrightarrow> real_of_int \<bar>roundEven r\<bar> \<le> 2 ^ n"
proof -
  assume "\<bar>r\<bar> \<le> 2 ^ n"
  then have "\<bar>r\<bar> < of_int (2 ^ n) + 1 / 2"
    by simp
  then have "\<bar>roundEven r\<bar> \<le> 2 ^ n"
    by (rule roundEven_abs_upper)
  then have "real_of_int \<bar>roundEven r\<bar> \<le> of_int (2 ^ n)"
    by (simp only: of_int_le_iff)
  then show ?thesis by simp
qed

lemma roundEven_real_upper1:
  "\<bar>r\<bar> < 2 ^ n - 1 / 2 \<Longrightarrow> real_of_int \<bar>roundEven r\<bar> \<le> 2 ^ n - 1"
proof -
  assume "\<bar>r\<bar> < 2 ^ n - 1 / 2"
  then have "\<bar>r\<bar> < of_int (2 ^ n - 1) + 1 / 2"
    by simp
  then have "\<bar>roundEven r\<bar> \<le> 2 ^ n - 1"
    by (rule roundEven_abs_upper)
  then have "real_of_int \<bar>roundEven r\<bar> \<le> of_int (2 ^ n - 1)"
    by (simp only: of_int_le_iff)
  then show ?thesis by simp
qed

lemma roundEven_real_lower: "2 ^ n \<le> \<bar>r\<bar> \<Longrightarrow> 2 ^ n \<le> real_of_int \<bar>roundEven r\<bar>"
proof -
  assume "2 ^ n \<le> \<bar>r\<bar>"
  then have "of_int (2 ^ n) \<le> \<bar>r\<bar>"
    by simp
  then have "2 ^ n \<le> \<bar>roundEven r\<bar>"
    by (rule roundEven_abs_lower)
  then have "real_of_int (2 ^ n) \<le> of_int \<bar>roundEven r\<bar>"
    by (simp only: of_int_le_iff)
  then show ?thesis by simp
qed

lemma overflowBound_eq: "overflowBound = (2 ^ 53 - 1 / 2) * 2 powi 971"
  by (simp add: overflowBound_def)

lemma round64_idem:
  assumes "round64 x = Fin y"
  shows "round64 y = Fin y"
proof -
  define e where "e = exponent64 \<bar>x\<bar>"
  define q :: real where "q = 2 powi (e - 52)"
  define m where "m = roundEven (x / q)"
  have qpos: "0 < q" by (simp add: q_def)
  have fin: "\<bar>x\<bar> < overflowBound"
    using assms by (rule round64_Fin_bound)
  then have y: "y = of_int m * q"
    using assms by (simp add: round64_finite q_def e_def m_def)
  have ay: "\<bar>y\<bar> = of_int \<bar>m\<bar> * q"
    using qpos by (simp add: y abs_mult)
  have range: "- 1022 \<le> e" "e \<le> 1023"
    using exponent64_range [of "\<bar>x\<bar>"] by (simp_all add: e_def)
  have q52: "2 ^ 52 * q = 2 powi e"
    using pow2_split [of 52 "e - 52"] by (simp add: q_def)
  have q53: "2 ^ 53 * q = 2 powi (e + 1)"
    using pow2_split [of 53 "e - 52"] by (simp add: q_def add.commute)
  have ax: "\<bar>x / q\<bar> = \<bar>x\<bar> / q"
    using qpos by simp
  have up: "\<bar>x\<bar> < 2 powi (e + 1)"
  proof (cases "x = 0")
    case True
    then show ?thesis by simp
  next
    case False
    with fin overflowBound_less show ?thesis
      unfolding e_def by (intro exponent64_upper) simp_all
  qed
  then have "\<bar>x / q\<bar> < 2 ^ 53"
    using qpos q53 by (simp add: ax pos_divide_less_eq)
  then have "\<bar>x / q\<bar> \<le> 2 ^ 53"
    by simp
  then have rm: "real_of_int \<bar>m\<bar> \<le> 2 ^ 53"
    unfolding m_def by (rule roundEven_real_upper)
  show ?thesis
  proof (cases "2 powi (- 1022) \<le> \<bar>x\<bar>")
    case False
    then have e: "e = - 1022"
      unfolding e_def by (intro exponent64_small) simp_all
    from False have "\<bar>x\<bar> < 2 powi e"
      by (simp add: e)
    then have "\<bar>x / q\<bar> < 2 ^ 52"
      using qpos q52 by (simp add: ax pos_divide_less_eq)
    then have "\<bar>x / q\<bar> \<le> 2 ^ 52"
      by simp
    then have "real_of_int \<bar>m\<bar> \<le> 2 ^ 52"
      unfolding m_def by (rule roundEven_real_upper)
    then have "\<bar>y\<bar> \<le> 2 ^ 52 * q"
      using qpos by (simp add: ay)
    also have "2 ^ 52 * q = 2 powi (- 1022)"
      unfolding q52 e ..
    also have "(2::real) powi (- 1022) < 2 powi (- 1021)"
      by (intro power_int_strict_increasing) simp_all
    finally have small: "\<bar>y\<bar> < 2 powi (- 1021)" .
    have "onGrid y"
      using assms by (rule round64_onGrid)
    then show ?thesis
      using small by (rule round64_exact_small)
  next
    case True
    have low: "2 powi e \<le> \<bar>x\<bar>"
      using True fin overflowBound_less unfolding e_def by (intro exponent64_lower) simp_all
    then have "2 ^ 52 \<le> \<bar>x / q\<bar>"
      using qpos q52 by (simp add: ax pos_le_divide_eq)
    then have "(2::real) ^ 52 \<le> of_int \<bar>m\<bar>"
      unfolding m_def by (rule roundEven_real_lower)
    then have ylow: "2 powi e \<le> \<bar>y\<bar>"
      using qpos by (simp add: ay flip: q52)
    have yfin: "\<bar>y\<bar> < overflowBound"
    proof (cases "e = 1023")
      case True
      have "\<bar>x\<bar> < (2 ^ 53 - 1 / 2) * q"
        using fin by (simp add: overflowBound_eq q_def True)
      then have "\<bar>x / q\<bar> < 2 ^ 53 - 1 / 2"
        using qpos by (simp add: ax pos_divide_less_eq)
      then have "real_of_int \<bar>m\<bar> \<le> 2 ^ 53 - 1"
        unfolding m_def by (rule roundEven_real_upper1)
      then have "\<bar>y\<bar> \<le> (2 ^ 53 - 1) * q"
        using qpos by (simp add: ay)
      also have "\<dots> < (2 ^ 53 - 1 / 2) * q"
        using qpos by simp
      also have "\<dots> = overflowBound"
        by (simp add: overflowBound_eq q_def True)
      finally show ?thesis .
    next
      case False
      with range have "e + 1 \<le> 1023" by simp
      then have "(2::real) powi (e + 1) \<le> 2 powi 1023"
        by (intro power_int_increasing) simp_all
      moreover have "\<bar>y\<bar> \<le> 2 powi (e + 1)"
        using rm qpos by (simp add: ay flip: q53)
      moreover have "(2::real) powi 1023 < overflowBound"
        by (simp add: overflowBound_def)
      ultimately show ?thesis by linarith
    qed
    have yq: "y / q = of_int m"
      using qpos by (simp add: y)
    show ?thesis
    proof (cases "\<bar>y\<bar> < 2 powi (e + 1)")
      case True
      with ylow range have "exponent64 \<bar>y\<bar> = e"
        by (intro exponent64_eq) simp_all
      then have q1: "2 powi (exponent64 \<bar>y\<bar> - 52) = q"
        by (simp add: q_def)
      have "of_int (roundEven (y / q)) * q = of_int m * q"
        by (simp only: yq roundEven_of_int)
      then have v: "of_int (roundEven (y / q)) * q = y"
        by (simp only: y)
      show ?thesis
        by (simp only: round64_finite [OF yfin] q1 v)
    next
      case False
      have "\<bar>y\<bar> \<le> 2 powi (e + 1)"
        using rm qpos by (simp add: ay flip: q53)
      with False have top: "\<bar>y\<bar> = 2 powi (e + 1)" by simp
      have "e \<noteq> 1023"
      proof
        assume "e = 1023"
        then have "overflowBound < \<bar>y\<bar>"
          by (simp add: top overflowBound_def)
        with yfin show False by simp
      qed
      with range have r2: "e + 1 \<le> 1023" "- 1022 \<le> e + 1" by simp_all
      have "(2::real) powi (e + 1) < 2 powi (e + 1 + 1)"
        by (intro power_int_strict_increasing) simp_all
      then have "\<bar>y\<bar> < 2 powi (e + 1 + 1)"
        by (simp only: top)
      with top r2 have ey: "exponent64 \<bar>y\<bar> = e + 1"
        by (intro exponent64_eq) simp_all
      have q2: "2 powi (exponent64 \<bar>y\<bar> - 52) = 2 * q"
        using pow2_succ [of "e - 52"] by (simp add: q_def ey)
      have "real_of_int \<bar>m\<bar> * q = 2 ^ 53 * q"
        by (simp only: q53 ay [symmetric] top)
      then have "real_of_int \<bar>m\<bar> = 2 ^ 53"
        using qpos by simp
      then have "\<bar>m\<bar> = 2 ^ 53"
        by simp
      then have "even \<bar>m\<bar>"
        by simp
      then have "even m"
        by simp
      then obtain j where j: "m = 2 * j"
        by (auto elim: evenE)
      have yj: "y / (2 * q) = of_int j"
        using qpos by (simp add: y j)
      have "of_int (roundEven (y / (2 * q))) * (2 * q) = of_int j * (2 * q)"
        by (simp only: yj roundEven_of_int)
      also have "\<dots> = y"
        by (simp add: y j)
      finally have v: "of_int (roundEven (y / (2 * q))) * (2 * q) = y" .
      show ?thesis
        by (simp only: round64_finite [OF yfin] q2 v)
    qed
  qed
qed

section \<open>Facts about the arithmetic\<close>

lemma jmul_rounded: "jmul a b = Fin y \<Longrightarrow> round64 y = Fin y"
  by (cases a; cases b) (auto simp add: signedInf_def round64_idem split: if_splits)

lemma jdiv_rounded: "jdiv a b = Fin y \<Longrightarrow> round64 y = Fin y"
  by (cases a; cases b) (auto simp add: signedInf_def round64_idem round64_zero split: if_splits)

lemma jadd_rounded: "jadd a b = Fin y \<Longrightarrow> round64 y = Fin y"
  by (cases a; cases b) (auto simp add: round64_idem)

lemma jadd_zero_jmul: "jadd (Fin 0) (jmul a b) = jmul a b"
proof (cases "jmul a b")
  case (Fin y)
  with jmul_rounded [of a b y] show ?thesis by simp
qed simp_all

lemma jmul_NaN_right: "jmul x NaN = NaN"
  by (cases x) simp_all

lemma jmul_onGrid: "jmul a b = Fin y \<Longrightarrow> onGrid y"
  using jmul_rounded [of a b y] round64_onGrid [of y y] by simp

section \<open>Facts about the conversion of strings\<close>

lemma whiteSequences_nonempty: "w \<in> set whiteSequences \<Longrightarrow> w \<noteq> []"
  by (auto simp add: whiteSequences_def)

lemma whiteAtStart_zero:
  assumes "s \<noteq> []" and "\<forall>w\<in>set whiteSequences. hd w \<noteq> hd s"
  shows "whiteAtStart s = 0"
proof -
  have "\<not> startsWith w s" if "w \<in> set whiteSequences" for w
  proof
    assume "startsWith w s"
    then have "hd w = hd (take (length w) s)"
      by (simp add: startsWith_def)
    also have "\<dots> = hd s"
      using whiteSequences_nonempty [OF that] by (cases w) simp_all
    finally show False
      using assms(2) that by simp
  qed
  then have "filter (\<lambda>w. startsWith w s) whiteSequences = []"
    by (simp add: filter_empty_conv)
  then show ?thesis
    by (simp add: whiteAtStart_def)
qed

lemma whiteAtEnd_zero:
  assumes "s \<noteq> []" and "\<forall>w\<in>set whiteSequences. last w \<noteq> last s"
  shows "whiteAtEnd s = 0"
proof -
  have "\<not> endsWith w s" if "w \<in> set whiteSequences" for w
  proof
    assume e: "endsWith w s"
    have "w \<noteq> []" using that by (rule whiteSequences_nonempty)
    with e assms(1) have "length s - length w < length s"
      by (simp add: endsWith_def)
    then have "last (drop (length s - length w) s) = last s"
      by (rule last_drop)
    with e have "last w = last s"
      by (simp add: endsWith_def)
    with assms(2) that show False by simp
  qed
  then have "filter (\<lambda>w. endsWith w s) whiteSequences = []"
    by (simp add: filter_empty_conv)
  then show ?thesis
    by (simp add: whiteAtEnd_def)
qed

text \<open>A string that neither starts nor ends with a byte of white space is its own trim.\<close>

lemma trim_plain:
  assumes "s \<noteq> []" and "hd s \<notin> set whiteFirstBytes" and "last s \<notin> set whiteLastBytes"
  shows "trim s = s"
proof -
  have "\<forall>w\<in>set whiteSequences. hd w \<noteq> hd s"
  proof
    fix w
    assume "w \<in> set whiteSequences"
    then have "hd w \<in> set whiteFirstBytes"
      by (simp add: whiteFirstBytes_def)
    with assms(2) show "hd w \<noteq> hd s"
      by auto
  qed
  with assms(1) have a: "whiteAtStart s = 0"
    by (rule whiteAtStart_zero)
  have "\<forall>w\<in>set whiteSequences. last w \<noteq> last s"
  proof
    fix w
    assume "w \<in> set whiteSequences"
    then have "last w \<in> set whiteLastBytes"
      by (simp add: whiteLastBytes_def)
    with assms(3) show "last w \<noteq> last s"
      by auto
  qed
  with assms(1) have b: "whiteAtEnd s = 0"
    by (rule whiteAtEnd_zero)
  have "trimStart n s = s" for n
    using a by (cases n) simp_all
  moreover have "trimEnd n s = s" for n
    using b by (cases n) simp_all
  ultimately show ?thesis
    by (simp add: trim_def)
qed

lemma whiteFirstBytes_eval:
  "set whiteFirstBytes = {CHR 0x09, CHR 0x0A, CHR 0x0B, CHR 0x0C, CHR 0x0D, CHR 0x20, CHR 0xC2,
     CHR 0xE1, CHR 0xE2, CHR 0xE3, CHR 0xEF}"
  by (auto simp add: whiteFirstBytes_def whiteSequences_def)

lemma whiteLastBytes_eval:
  "set whiteLastBytes = {CHR 0x09, CHR 0x0A, CHR 0x0B, CHR 0x0C, CHR 0x0D, CHR 0x20, CHR 0xA0,
     CHR 0x80, CHR 0x81, CHR 0x82, CHR 0x83, CHR 0x84, CHR 0x85, CHR 0x86, CHR 0x87, CHR 0x88,
     CHR 0x89, CHR 0x8A, CHR 0xA8, CHR 0xA9, CHR 0xAF, CHR 0x9F, CHR 0xBF}"
  by (auto simp add: whiteLastBytes_def whiteSequences_def)

lemma trim_empty: "trim [] = []"
  by (simp add: trim_def)

lemmas parse_defs = stringToNumber_def trim_plain trim_empty whiteFirstBytes_eval
  whiteLastBytes_eval parseNonDecimal_def parseDecimal_def
  parseUnsigned_def isExpChar_def parseMantissa_def parseExponent_def digitsVal_def
  optDigitsVal_def digitIn_def scale10_def

lemmas round_defs = overflowBound_def roundEven_def

lemma number_abc: "stringToNumber ''abc'' = NaN"
  by (simp add: parse_defs)

lemma number_empty: "stringToNumber [] = Fin 0"
  by (simp add: stringToNumber_def trim_empty)

lemma number_small:
  "stringToNumber ''0'' = Fin 0"
  "stringToNumber ''4'' = Fin 4"
  "stringToNumber ''5'' = Fin 5"
  "stringToNumber ''6'' = Fin 6"
  "stringToNumber ''12'' = Fin 12"
  "stringToNumber ''25'' = Fin 25"
  "stringToNumber ''50'' = Fin 50"
  "stringToNumber ''200'' = Fin 200"
  by (simp add: parse_defs round64_zero,
      simp add: parse_defs round_defs round64_eval [where e = 2],
      simp add: parse_defs round_defs round64_eval [where e = 2],
      simp add: parse_defs round_defs round64_eval [where e = 2],
      simp add: parse_defs round_defs round64_eval [where e = 3],
      simp add: parse_defs round_defs round64_eval [where e = 4],
      simp add: parse_defs round_defs round64_eval [where e = 5],
      simp add: parse_defs round_defs round64_eval [where e = 7])

lemma number_fractions:
  "stringToNumber ''1.2'' = Fin (5404319552844595 / 2 ^ 52)"
  "stringToNumber ''0.8'' = Fin (3602879701896397 / 2 ^ 52)"
  "stringToNumber ''0.2'' = Fin (3602879701896397 / 2 ^ 54)"
  "stringToNumber ''0.12'' = Fin (1080863910568919 / 2 ^ 53)"
  "stringToNumber ''0.05'' = Fin (3602879701896397 / 2 ^ 56)"
  "stringToNumber ''0.25'' = Fin (1 / 4)"
  "stringToNumber ''0.1035'' = Fin (7457960982925541 / 2 ^ 56)"
  "stringToNumber ''0.10350000000000001'' = Fin (3728980491462771 / 2 ^ 55)"
  by (simp add: parse_defs round_defs round64_eval [where e = 0],
      simp add: parse_defs round_defs round64_eval [where e = "- 1"],
      simp add: parse_defs round_defs round64_eval [where e = "- 3"],
      simp add: parse_defs round_defs round64_eval [where e = "- 4"],
      simp add: parse_defs round_defs round64_eval [where e = "- 5"],
      simp add: parse_defs round_defs round64_eval [where e = "- 2"],
      simp add: parse_defs round_defs round64_eval [where e = "- 4"],
      simp add: parse_defs round_defs round64_eval [where e = "- 4"])

lemma number_1e301: "stringToNumber ''1e301'' = Fin (8406091369059075 * 2 ^ 947)"
  by (simp add: parse_defs round_defs round64_eval [where e = 999])

subsection \<open>Decimal numerals are read back as their value, rounded\<close>

lemma isDigit_digitChar: "d < 10 \<Longrightarrow> isDigit (digitChar d)"
  by (simp add: isDigit_def digitChar_def)

lemma digitIn_digitChar: "d < 10 \<Longrightarrow> digitIn 10 (digitChar d) = Some d"
  by (simp add: digitIn_def digitChar_def)

lemma showNat_nonempty: "showNat n \<noteq> []"
  by (subst showNat.simps) simp

lemma showNat_digits: "c \<in> set (showNat n) \<Longrightarrow> isDigit c"
proof (induction n rule: showNat.induct)
  case (1 n)
  show ?case
  proof (cases "n < 10")
    case True
    with "1.prems" show ?thesis
      by (subst (asm) showNat.simps) (simp add: isDigit_digitChar)
  next
    case False
    with "1.prems" have "c \<in> set (showNat (n div 10)) \<or> c = digitChar (n mod 10)"
      by (subst (asm) showNat.simps) auto
    with False "1.IH" show ?thesis
      by (auto simp add: isDigit_digitChar)
  qed
qed

lemma digitsIn_append:
  "digitsIn b acc (xs @ ys) = (case digitsIn b acc xs of None \<Rightarrow> None | Some a \<Rightarrow> digitsIn b a ys)"
  by (induction xs arbitrary: acc) (auto split: option.splits)

lemma digitsIn_showNat: "digitsIn 10 acc (showNat n) = Some (acc * 10 ^ length (showNat n) + n)"
proof (induction n arbitrary: acc rule: showNat.induct)
  case (1 n)
  show ?case
  proof (cases "n < 10")
    case True
    then show ?thesis
      by (subst (1 2) showNat.simps) (simp add: digitIn_digitChar)
  next
    case False
    have "digitsIn 10 acc (showNat (n div 10) @ [digitChar (n mod 10)])
        = Some ((acc * 10 ^ length (showNat (n div 10)) + n div 10) * 10 + n mod 10)"
      using False by (simp add: digitsIn_append "1.IH" digitIn_digitChar)
    also have "(acc * 10 ^ length (showNat (n div 10)) + n div 10) * 10 + n mod 10
        = acc * 10 ^ Suc (length (showNat (n div 10))) + n"
      by (simp add: algebra_simps)
    finally show ?thesis
      using False by (subst (1 2) showNat.simps) simp
  qed
qed

lemma digit_not_special:
  assumes "isDigit c"
  shows "c \<notin> set whiteFirstBytes" and "c \<notin> set whiteLastBytes"
    and "\<not> isExpChar c" and "c \<noteq> CHR ''.''" and "c \<noteq> CHR ''+''"
    and "c \<noteq> CHR ''-''" and "c \<noteq> CHR ''I''" and "c \<noteq> CHR ''x''" and "c \<noteq> CHR ''X''"
    and "c \<noteq> CHR ''o''" and "c \<noteq> CHR ''O''" and "c \<noteq> CHR ''b''" and "c \<noteq> CHR ''B''"
  using assms
  by (auto simp add: isDigit_def isExpChar_def whiteFirstBytes_eval whiteLastBytes_eval)

lemma number_of_digits:
  assumes "s \<noteq> []" and "\<forall>c\<in>set s. isDigit c" and "digitsIn 10 0 s = Some n"
  shows "stringToNumber s = round64 (real n)"
proof -
  have t: "trim s = s"
    using assms(1,2) by (intro trim_plain) (simp_all add: digit_not_special)
  have nd: "parseNonDecimal s = None"
  proof (cases s)
    case Nil
    then show ?thesis by (simp add: parseNonDecimal_def)
  next
    case (Cons z r)
    show ?thesis
    proof (cases r)
      case Nil
      with Cons show ?thesis by (simp add: parseNonDecimal_def)
    next
      case (Cons p ds)
      with \<open>s = z # r\<close> assms(2) have "isDigit p" by simp
      with Cons \<open>s = z # r\<close> show ?thesis
        by (simp add: parseNonDecimal_def digit_not_special)
    qed
  qed
  have m: "parseMantissa s = Some (real n)"
  proof -
    have tw: "takeWhile (\<lambda>c. c \<noteq> CHR ''.'') s = s" "dropWhile (\<lambda>c. c \<noteq> CHR ''.'') s = []"
      using assms(2) by (simp_all add: digit_not_special)
    show ?thesis
      using assms(1,3) by (simp add: parseMantissa_def digitsVal_def Let_def tw)
  qed
  have u: "parseUnsigned s = round64 (real n)"
  proof -
    have tw: "takeWhile (\<lambda>c. \<not> isExpChar c) s = s" "dropWhile (\<lambda>c. \<not> isExpChar c) s = []"
      using assms(2) by (simp_all add: digit_not_special)
    have "CHR ''I'' \<notin> set s"
      using assms(2) digit_not_special(7) by blast
    then have "s \<noteq> ''Infinity''"
      by auto
    then show ?thesis
      by (simp add: parseUnsigned_def scale10_def Let_def tw m)
  qed
  have "parseDecimal s = round64 (real n)"
  proof (cases s)
    case Nil
    with assms(1) show ?thesis by simp
  next
    case (Cons c cs)
    with assms(2) have "isDigit c" by simp
    with Cons u show ?thesis
      by (simp add: parseDecimal_def digit_not_special)
  qed
  with t nd assms(1) show ?thesis
    by (simp add: stringToNumber_def)
qed

lemma stringToNumber_showNat: "stringToNumber (showNat n) = round64 (real n)"
  using number_of_digits [of "showNat n" n] digitsIn_showNat [of 0 n]
  by (simp add: showNat_nonempty showNat_digits)

section \<open>Facts about the form state and the request\<close>

lemma scale_eval:
  "jmul (Fin 0) (Fin 10000000) = Fin 0"
  "jmul (Fin 50) (Fin 10000000) = Fin 500000000"
  "jmul (Fin 200) (Fin 10000000) = Fin 2000000000"
  "jmul (Fin 250) (Fin 10000000) = Fin 2500000000"
  by (simp add: round64_zero,
      simp add: round_defs round64_eval [where e = 28],
      simp add: round_defs round64_eval [where e = 30],
      simp add: round_defs round64_eval [where e = 31])

lemma percent_eval:
  "jdiv (Fin 0) (Fin 100) = Fin 0"
  "jdiv (Fin 4) (Fin 100) = Fin (5764607523034235 / 2 ^ 57)"
  "jdiv (Fin 5) (Fin 100) = Fin (3602879701896397 / 2 ^ 56)"
  "jdiv (Fin 6) (Fin 100) = Fin (1080863910568919 / 2 ^ 54)"
  "jdiv (Fin 12) (Fin 100) = Fin (1080863910568919 / 2 ^ 53)"
  "jdiv (Fin 25) (Fin 100) = Fin (1 / 4)"
  by (simp add: round64_zero,
      simp add: round_defs round64_eval [where e = "- 5"],
      simp add: round_defs round64_eval [where e = "- 5"],
      simp add: round_defs round64_eval [where e = "- 5"],
      simp add: round_defs round64_eval [where e = "- 4"],
      simp add: round_defs round64_eval [where e = "- 2"])

lemma total_eval:
  "jadd (Fin 0) (Fin 0) = Fin 0"
  "jadd (Fin 2000000000) (Fin 500000000) = Fin 2500000000"
  "jadd (Fin 500000000) (Fin 500000000) = Fin 1000000000"
  by (simp add: round64_zero,
      simp add: round_defs round64_eval [where e = 31],
      simp add: round_defs round64_eval [where e = 29])

lemma weight_eval:
  "jdiv (Fin 2000000000) (Fin 2500000000) = Fin (3602879701896397 / 2 ^ 52)"
  "jdiv (Fin 500000000) (Fin 2500000000) = Fin (3602879701896397 / 2 ^ 54)"
  "jdiv (Fin 500000000) (Fin 1000000000) = Fin (1 / 2)"
  by (simp add: round_defs round64_eval [where e = "- 1"],
      simp add: round_defs round64_eval [where e = "- 3"],
      simp add: round_defs round64_eval [where e = "- 1"])

lemma wacc_eval:
  "jmul (Fin (3602879701896397 / 2 ^ 52)) (Fin (1080863910568919 / 2 ^ 53))
     = Fin (3458764513820541 / 2 ^ 55)"
  "jmul (Fin (3602879701896397 / 2 ^ 54)) (Fin (3602879701896397 / 2 ^ 56))
     = Fin (1441151880758559 / 2 ^ 57)"
  "jsub (Fin 1) (Fin (1 / 4)) = Fin (3 / 4)"
  "jmul (Fin (1441151880758559 / 2 ^ 57)) (Fin (3 / 4)) = Fin (4323455642275677 / 2 ^ 59)"
  "jadd (Fin (3458764513820541 / 2 ^ 55)) (Fin (4323455642275677 / 2 ^ 59))
     = Fin (3728980491462771 / 2 ^ 55)"
  "jmul (Fin (3602879701896397 / 2 ^ 52)) (Fin 0) = Fin 0"
  "jadd (Fin 0) (Fin (4323455642275677 / 2 ^ 59)) = Fin (4323455642275677 / 2 ^ 59)"
  by (simp add: round_defs round64_eval [where e = "- 4"],
      simp add: round_defs round64_eval [where e = "- 7"],
      simp add: jsub_def round_defs round64_eval [where e = "- 1"],
      simp add: round_defs round64_eval [where e = "- 8"],
      simp add: round_defs round64_eval [where e = "- 4"],
      simp add: round64_zero,
      simp add: round_defs round64_eval [where e = "- 8"])

lemma huge_eval:
  "jmul (Fin (8406091369059075 * 2 ^ 947)) (Fin 10000000) = Fin (156575653125701 * 2 ^ 976)"
  "jadd (Fin (156575653125701 * 2 ^ 976)) (Fin (156575653125701 * 2 ^ 976)) = PInf"
  by (simp add: round_defs round64_eval [where e = 1023],
      simp add: round64_overflow overflowBound_def signedInf_def)

lemmas finite_ops = jadd.simps(5) jmul.simps(5) jdiv.simps(5)

lemma E_worked: "E_rupees workedScenario = Fin 2000000000"
  by (simp add: workedScenario_def workedForm_def E_rupees_def croreToNumber_def number_small
      scale_eval del: finite_ops)

lemma D_worked: "D_rupees workedScenario = Fin 500000000"
  by (simp add: workedScenario_def workedForm_def D_rupees_def croreToNumber_def number_small
      scale_eval del: finite_ops)

lemma V_worked: "V_rupees workedScenario = Fin 2500000000"
  by (simp add: V_rupees_def E_worked D_worked total_eval del: finite_ops)

lemma no_result_worked:
  "optField r_weightE workedScenario = JUndefined"
  "optField r_weightD workedScenario = JUndefined"
  "optField r_re workedScenario = JUndefined"
  "optField r_rd workedScenario = JUndefined"
  "optField r_taxRate workedScenario = JUndefined"
  by (simp_all add: optField_def workedScenario_def)

lemma weights_worked:
  "weightE workedScenario = JNum (Fin (3602879701896397 / 2 ^ 52))"
  "weightD workedScenario = JNum (Fin (3602879701896397 / 2 ^ 54))"
proof -
  have "weightE workedScenario = JNum (jdiv (Fin 2000000000) (Fin 2500000000))"
    by (simp add: weightE_def weightE_input_def V_worked E_worked no_result_worked coalesce_def
        del: finite_ops)
  then show "weightE workedScenario = JNum (Fin (3602879701896397 / 2 ^ 52))"
    by (simp only: weight_eval)
  have "weightD workedScenario = JNum (jdiv (Fin 500000000) (Fin 2500000000))"
    by (simp add: weightD_def weightD_input_def V_worked D_worked no_result_worked coalesce_def
        del: finite_ops)
  then show "weightD workedScenario = JNum (Fin (3602879701896397 / 2 ^ 54))"
    by (simp only: weight_eval)
qed

lemma rates_worked:
  "Re_dec workedScenario = JNum (Fin (1080863910568919 / 2 ^ 53))"
  "Rd_dec workedScenario = JNum (Fin (3602879701896397 / 2 ^ 56))"
  "Tc_dec workedScenario = JNum (Fin (1 / 4))"
proof -
  have "Re_dec workedScenario = JNum (jdiv (Fin 12) (Fin 100))"
    by (simp add: Re_dec_def no_result_worked coalesce_def percentOrUndefined_def
        del: finite_ops)
      (simp add: workedScenario_def workedForm_def number_small del: finite_ops)
  then show "Re_dec workedScenario = JNum (Fin (1080863910568919 / 2 ^ 53))"
    by (simp only: percent_eval)
  have "Rd_dec workedScenario = JNum (jdiv (Fin 5) (Fin 100))"
    by (simp add: Rd_dec_def no_result_worked coalesce_def percentOrUndefined_def
        del: finite_ops)
      (simp add: workedScenario_def workedForm_def number_small del: finite_ops)
  then show "Rd_dec workedScenario = JNum (Fin (3602879701896397 / 2 ^ 56))"
    by (simp only: percent_eval)
  have "Tc_dec workedScenario = JNum (jdiv (Fin 25) (Fin 100))"
    by (simp add: Tc_dec_def no_result_worked coalesce_def percentOrUndefined_def
        del: finite_ops)
      (simp add: workedScenario_def workedForm_def number_small del: finite_ops)
  then show "Tc_dec workedScenario = JNum (Fin (1 / 4))"
    by (simp only: percent_eval)
qed

lemma wacc_worked: "waccComputed workedScenario = Fin (3728980491462771 / 2 ^ 55)"
  by (simp only: waccComputed_def weights_worked rates_worked prod.case jsval.case wacc_eval)

text \<open>With no API answer, the final weights are always numbers.\<close>

lemma weights_without_result:
  assumes "result st = None"
  shows "\<exists>w. weightE st = JNum w" and "\<exists>w. weightD st = JNum w"
  using assms
  by (simp_all add: weightE_def weightD_def weightE_input_def weightD_input_def optField_def
      coalesce_def)

lemma payload_fields:
  "p_rd (submitPayload f) = toDecimal (rd f)"
  "p_taxRate (submitPayload f) = toDecimal (taxRate f)"
  "p_equityValue (submitPayload f) = scaleCrore (equityValue f)"
  "p_debtValue (submitPayload f) = scaleCrore (debtValue f)"
  "p_re (submitPayload f) = (if re f = [] then None else Some (toDecimal (re f)))"
  "p_rf (submitPayload f)
     = (if re f = [] \<and> rf f \<noteq> [] \<and> beta f \<noteq> [] \<and> marketRiskPremium f \<noteq> []
        then Some (toDecimal (rf f)) else None)"
  "p_beta (submitPayload f)
     = (if re f = [] \<and> rf f \<noteq> [] \<and> beta f \<noteq> [] \<and> marketRiskPremium f \<noteq> []
        then Some (stringToNumber (beta f)) else None)"
  "p_marketRiskPremium (submitPayload f)
     = (if re f = [] \<and> rf f \<noteq> [] \<and> beta f \<noteq> [] \<and> marketRiskPremium f \<noteq> []
        then Some (toDecimal (marketRiskPremium f)) else None)"
  by (simp_all add: submitPayload_def Let_def)

section \<open>Facts about the rendering of numbers\<close>

















lemma plainSymbols_deDE: "plainSymbols deDE"
  by (simp add: plainSymbols_def deDE_def infinitySign_def)

lemma digitChar_eval:
  "digitChar 0 = CHR ''0''" "digitChar 1 = CHR ''1''" "digitChar (Suc 0) = CHR ''1''"
  "digitChar 2 = CHR ''2''"
  "digitChar 3 = CHR ''3''" "digitChar 4 = CHR ''4''" "digitChar 5 = CHR ''5''"
  by (simp_all add: digitChar_def flip: of_char_eq_iff [where ?'a = nat])

lemmas render_defs = fmt_def toLocaleString_def formatToParts_def finiteParts_def splitGroups_def
  partsText_def padFraction_def showNat.simps digitChar_eval


lemma fmt_grouped:
  "fmt enUS z (JNum (Fin 12345)) (Some 0) = Inr ''12,345''"
  "fmt enIN z (JNum (Fin 1234512)) (Some 0) = Inr ''12,34,512''"
  "fmt enUS True (JNum (Fin 0)) (Some 0) = Inr ''-0''"
  "fmt enUS False (JNum (Fin 0)) (Some 2) = Inr ''0.00''"
  by (simp_all add: render_defs enUS_def enIN_def)

section \<open>Facts about the amounts and the scenarios\<close>

lemma small_bounds:
  "(2::real) powi (- 1075) \<le> 1 / 1000000000000000000000000000000" "2 < overflowBound" "3 < overflowBound"
  by (simp_all add: overflowBound_def power_int_minus field_simps)

lemma croreToNumber_onGrid: "croreToNumber s = Fin y \<Longrightarrow> onGrid y"
  unfolding croreToNumber_def by (rule jmul_onGrid)

lemma huge_amounts:
  "E_rupees hugeState = Fin (156575653125701 * 2 ^ 976)"
  "D_rupees hugeState = Fin (156575653125701 * 2 ^ 976)"
proof -
  have "E_rupees hugeState = jmul (stringToNumber ''1e301'') (Fin 10000000)"
    by (simp add: E_rupees_def croreToNumber_def hugeState_def workedForm_def)
  then show "E_rupees hugeState = Fin (156575653125701 * 2 ^ 976)"
    by (simp only: number_1e301 huge_eval)
  have "D_rupees hugeState = jmul (stringToNumber ''1e301'') (Fin 10000000)"
    by (simp add: D_rupees_def croreToNumber_def hugeState_def workedForm_def)
  then show "D_rupees hugeState = Fin (156575653125701 * 2 ^ 976)"
    by (simp only: number_1e301 huge_eval)
qed

lemma even_amounts:
  "E_rupees evenStale = Fin 500000000"
  "D_rupees evenStale = Fin 500000000"
  "V_rupees evenStale = Fin 1000000000"
  by (simp_all add: V_rupees_def E_rupees_def D_rupees_def croreToNumber_def evenStale_def
      workedForm_def number_small scale_eval total_eval del: finite_ops)

lemma stale_weights:
  "optField r_weightE evenStale = JNum (Fin (3602879701896397 / 2 ^ 52))"
  "optField r_weightD evenStale = JNum (Fin (3602879701896397 / 2 ^ 54))"
  "optField r_weightE degenerateStale = JNum (Fin (3602879701896397 / 2 ^ 52))"
  "optField r_weightD degenerateStale = JNum (Fin (3602879701896397 / 2 ^ 54))"
  by (simp_all add: optField_def evenStale_def degenerateStale_def staleResult_def
      number_fractions)

lemma jmul_zero_right: "jmul (Fin a) (Fin 0) = Fin 0"
  by (simp add: round64_zero)

lemma debt_term_only:
  "jadd (Fin 0) (Fin (4323455642275677 / 2 ^ 59)) = Fin (4323455642275677 / 2 ^ 59)"
  using jadd_zero_jmul [of "Fin (1441151880758559 / 2 ^ 57)" "Fin (3 / 4)"]
  by (simp only: wacc_eval)

text \<open>
  The values for the formula panel when no API answer is held and the form shows the
  capital structure, the cost of debt and the tax rate of the worked scenario.
\<close>

lemma worked_inputs:
  assumes "result st = None" and "equityValue (form st) = ''200''"
    and "debtValue (form st) = ''50''" and "rd (form st) = ''5''" and "taxRate (form st) = ''25''"
  shows "weightE st = JNum (Fin (3602879701896397 / 2 ^ 52))"
    and "weightD st = JNum (Fin (3602879701896397 / 2 ^ 54))"
    and "Rd_dec st = JNum (Fin (3602879701896397 / 2 ^ 56))"
    and "Tc_dec st = JNum (Fin (1 / 4))"
    and "Re_dec st = percentOrUndefined (re (form st))"
proof -
  have e: "E_rupees st = Fin 2000000000" and d: "D_rupees st = Fin 500000000"
    using assms
    by (simp_all add: E_rupees_def D_rupees_def croreToNumber_def number_small scale_eval
        del: finite_ops)
  have v: "V_rupees st = Fin 2500000000"
    by (simp add: V_rupees_def e d total_eval del: finite_ops)
  have u: "optField field st = JUndefined" for field
    using assms(1) by (simp add: optField_def)
  have "weightE st = JNum (jdiv (Fin 2000000000) (Fin 2500000000))"
    by (simp add: weightE_def weightE_input_def v e u coalesce_def del: finite_ops)
  then show "weightE st = JNum (Fin (3602879701896397 / 2 ^ 52))"
    by (simp only: weight_eval)
  have "weightD st = JNum (jdiv (Fin 500000000) (Fin 2500000000))"
    by (simp add: weightD_def weightD_input_def v d u coalesce_def del: finite_ops)
  then show "weightD st = JNum (Fin (3602879701896397 / 2 ^ 54))"
    by (simp only: weight_eval)
  have "Rd_dec st = JNum (jdiv (Fin 5) (Fin 100))"
    using assms(4)
    by (simp add: Rd_dec_def u coalesce_def percentOrUndefined_def number_small del: finite_ops)
  then show "Rd_dec st = JNum (Fin (3602879701896397 / 2 ^ 56))"
    by (simp only: percent_eval)
  have "Tc_dec st = JNum (jdiv (Fin 25) (Fin 100))"
    using assms(5)
    by (simp add: Tc_dec_def u coalesce_def percentOrUndefined_def number_small del: finite_ops)
  then show "Tc_dec st = JNum (Fin (1 / 4))"
    by (simp only: percent_eval)
  show "Re_dec st = percentOrUndefined (re (form st))"
    by (simp add: Re_dec_def u coalesce_def)
qed

lemma missing_beta_values:
  "weightE missingBetaState = JNum (Fin (3602879701896397 / 2 ^ 52))"
  "weightD missingBetaState = JNum (Fin (3602879701896397 / 2 ^ 54))"
  "Rd_dec missingBetaState = JNum (Fin (3602879701896397 / 2 ^ 56))"
  "Tc_dec missingBetaState = JNum (Fin (1 / 4))"
  "Re_dec missingBetaState = JUndefined"
proof -
  have a: "result missingBetaState = None" "equityValue (form missingBetaState) = ''200''"
    "debtValue (form missingBetaState) = ''50''" "rd (form missingBetaState) = ''5''"
    "taxRate (form missingBetaState) = ''25''" "re (form missingBetaState) = []"
    by (simp_all add: missingBetaState_def missingBetaForm_def workedForm_def)
  note w = worked_inputs [OF a(1-5)]
  show "weightE missingBetaState = JNum (Fin (3602879701896397 / 2 ^ 52))"
    "weightD missingBetaState = JNum (Fin (3602879701896397 / 2 ^ 54))"
    "Rd_dec missingBetaState = JNum (Fin (3602879701896397 / 2 ^ 56))"
    "Tc_dec missingBetaState = JNum (Fin (1 / 4))"
    by (rule w)+
  show "Re_dec missingBetaState = JUndefined"
    by (simp add: w(5) a(6) percentOrUndefined_def)
qed

lemma wacc_missing_beta: "waccComputed missingBetaState = Fin (4323455642275677 / 2 ^ 59)"
  by (simp only: waccComputed_def missing_beta_values prod.case jsval.case wacc_eval
      debt_term_only)

lemma wacc_zero_re:
  "waccComputed \<lparr> form = missingBetaForm\<lparr> re := ''0'' \<rparr>, result = None \<rparr>
     = Fin (4323455642275677 / 2 ^ 59)"
proof -
  let ?st = "\<lparr> form = missingBetaForm\<lparr> re := ''0'' \<rparr>, result = None \<rparr>"
  have a: "result ?st = None" "equityValue (form ?st) = ''200''"
    "debtValue (form ?st) = ''50''" "rd (form ?st) = ''5''"
    "taxRate (form ?st) = ''25''" "re (form ?st) = ''0''"
    by (simp_all add: missingBetaForm_def workedForm_def)
  note w = worked_inputs [OF a(1-5)]
  have "Re_dec ?st = JNum (jdiv (Fin 0) (Fin 100))"
    by (simp add: w(5) a(6) percentOrUndefined_def number_small del: finite_ops)
  then have r: "Re_dec ?st = JNum (Fin 0)"
    by (simp only: percent_eval)
  show ?thesis
    by (simp only: waccComputed_def w(1-4) r prod.case jsval.case wacc_eval jmul_zero_right
        debt_term_only)
qed

lemma degenerate_amounts:
  "E_rupees degenerateStale = Fin 0" "D_rupees degenerateStale = Fin 0"
  "E_rupees degenerateFresh = Fin 0" "D_rupees degenerateFresh = Fin 0"
  by (simp_all add: E_rupees_def D_rupees_def croreToNumber_def degenerateStale_def
      degenerateFresh_def degenerateForm_def workedForm_def number_small scale_eval
      del: finite_ops)

section \<open>The locally computed WACC\<close>

text \<open>
  C1. In every state in which the final weights and the three rates are all numbers,
  the locally computed WACC is \<open>weightE * Re + weightD * Rd * (1 - Tc)\<close>, evaluated in
  JavaScript's arithmetic: each product and the sum are rounded to binary64, and the
  second product associates to the left.
\<close>

theorem waccComputed_formula:
  assumes "weightE st = JNum we" and "weightD st = JNum wd"
    and "Re_dec st = JNum r" and "Rd_dec st = JNum d" and "Tc_dec st = JNum t"
  shows "waccComputed st = jadd (jmul we r) (jmul (jmul wd d) (jsub (Fin 1) t))"
  using assms by (simp add: waccComputed_def)

theorem waccComputed_formula_witness:
  "weightE workedScenario = JNum (Fin (3602879701896397 / 2 ^ 52))
   \<and> weightD workedScenario = JNum (Fin (3602879701896397 / 2 ^ 54))
   \<and> Re_dec workedScenario = JNum (Fin (1080863910568919 / 2 ^ 53))
   \<and> Rd_dec workedScenario = JNum (Fin (3602879701896397 / 2 ^ 56))
   \<and> Tc_dec workedScenario = JNum (Fin (1 / 4))
   \<and> waccComputed workedScenario
       = jadd (jmul (Fin (3602879701896397 / 2 ^ 52)) (Fin (1080863910568919 / 2 ^ 53)))
           (jmul (jmul (Fin (3602879701896397 / 2 ^ 54)) (Fin (3602879701896397 / 2 ^ 56)))
              (jsub (Fin 1) (Fin (1 / 4))))"
  using waccComputed_formula [OF weights_worked rates_worked] weights_worked rates_worked
  by (simp only: simp_thms)

section \<open>Capital weights\<close>

text \<open>
  C2, as stated, fails: equity and debt of \<open>1e301\<close> crore each are finite and positive in
  rupees, but their sum overflows to \<open>Infinity\<close>, which is greater than 0; both weights
  derived from the inputs are then 0, and their sum is 0, not 1.
\<close>

theorem weights_sum_counterexample:
  "E_rupees hugeState = Fin (156575653125701 * 2 ^ 976)
   \<and> D_rupees hugeState = Fin (156575653125701 * 2 ^ 976)
   \<and> V_rupees hugeState = PInf \<and> jgt (V_rupees hugeState) (Fin 0)
   \<and> weightE_input hugeState = JNum (Fin 0) \<and> weightD_input hugeState = JNum (Fin 0)
   \<and> jadd (Fin 0) (Fin 0) = Fin 0 \<and> 1 / 10 ^ 9 < \<bar>(0::real) - 1\<bar>"
proof -
  have v: "V_rupees hugeState = PInf"
    by (simp only: V_rupees_def huge_amounts huge_eval)
  show ?thesis
    by (simp add: huge_amounts v weightE_input_def weightD_input_def total_eval del: finite_ops)
qed

text \<open>
  C2, amended. For finite equity and debt amounts \<open>E, D \<ge> 0\<close> whose total \<open>V\<close>, as
  computed, is finite and positive, the weights derived from the inputs are finite
  numbers and their sum, as computed, differs from 1 by at most \<open>10^-15\<close>.
\<close>

theorem weights_sum_to_one:
  assumes "E_rupees st = Fin e" and "D_rupees st = Fin d" and "0 \<le> e" and "0 \<le> d"
    and "V_rupees st = Fin v" and "0 < v"
  shows "\<exists>we wd s. weightE_input st = JNum (Fin we) \<and> weightD_input st = JNum (Fin wd)
     \<and> jadd (Fin we) (Fin wd) = Fin s \<and> \<bar>s - 1\<bar> \<le> 1 / 10 ^ 15"
proof -
  define U :: real where "U = 1 / 2 ^ 53"
  define h :: real where "h = 2 powi (- 1075)"
  have hb: "0 < h" "h \<le> 1 / 1000000000000000000000000000000"
    using small_bounds(1) by (simp_all add: h_def)
  have ge: "onGrid e" and gd: "onGrid d"
    using assms(1,2) by (auto simp add: E_rupees_def D_rupees_def intro: croreToNumber_onGrid)
  have rv: "round64 (e + d) = Fin v"
    using assms(1,2,5) by (simp add: V_rupees_def)
  from round64_add_error [OF ge gd rv] assms(3,4)
  have ev: "\<bar>v - (e + d)\<bar> \<le> (e + d) * U"
    by (simp add: U_def)
  have Ub: "U = 1 / 9007199254740992"
    by (simp add: U_def)
  define S where "S = e + d"
  have Spos: "0 < S"
  proof (rule ccontr)
    assume "\<not> 0 < S"
    with assms(3,4) have "e + d = 0" by (simp add: S_def)
    with rv have "v = 0" by (simp add: round64_zero)
    with assms(6) show False by simp
  qed
  have vb: "S - S * U \<le> v" "v \<le> S + S * U"
    using ev unfolding S_def by linarith+
  define x1 where "x1 = e / v"
  define x2 where "x2 = d / v"
  define t where "t = S / v"
  have tsum: "x1 + x2 = t"
    by (simp add: x1_def x2_def t_def S_def add_divide_distrib)
  have xpos: "0 \<le> x1" "0 \<le> x2"
    using assms(3,4,6) by (simp_all add: x1_def x2_def)
  have "S \<le> (1 + 2 * U) * v"
    using vb(1) Spos unfolding Ub by (simp add: algebra_simps; linarith)
  then have tup: "t \<le> 1 + 2 * U"
    using assms(6) by (simp add: t_def pos_divide_le_eq)
  have "(1 - U) * v \<le> S"
    using vb(2) Spos unfolding Ub by (simp add: algebra_simps; linarith)
  then have tlow: "1 - U \<le> t"
    using assms(6) by (simp add: t_def pos_le_divide_eq)
  have x1b: "\<bar>x1\<bar> < overflowBound" and x2b: "\<bar>x2\<bar> < overflowBound"
    using xpos tsum tup small_bounds(2) unfolding Ub by linarith+
  obtain we where we: "round64 x1 = Fin we"
    using x1b by (cases x1 rule: round64_cases) simp_all
  obtain wd where wd: "round64 x2 = Fin wd"
    using x2b by (cases x2 rule: round64_cases) simp_all
  have e1: "\<bar>we - x1\<bar> \<le> x1 * U + h"
    using round64_error [OF we] xpos(1) by (simp add: U_def h_def)
  have e2: "\<bar>wd - x2\<bar> \<le> x2 * U + h"
    using round64_error [OF wd] xpos(2) by (simp add: U_def h_def)
  define a where "a = we + wd"
  have alow: "t - t * U - 2 * h \<le> a" and aup: "a \<le> t + t * U + 2 * h"
    using e1 e2 tsum unfolding Ub a_def by linarith+
  have apos: "0 \<le> a"
    using alow tlow hb unfolding Ub by linarith
  have ab: "\<bar>a\<bar> < overflowBound"
    using apos aup tup hb small_bounds(3) unfolding Ub by linarith
  obtain s where s0: "round64 a = Fin s"
    using ab by (cases a rule: round64_cases) simp_all
  have s: "round64 (we + wd) = Fin s"
    using s0 by (simp add: a_def)
  have e3: "\<bar>s - a\<bar> \<le> a * U + h"
    using round64_error [OF s0] apos by (simp add: U_def h_def)
  have slow: "a - a * U - h \<le> s" and sup: "s \<le> a + a * U + h"
    using e3 unfolding Ub by linarith+
  have "1 - 1 / 1000000000000000 \<le> s"
    using slow alow tlow hb unfolding Ub by linarith
  moreover have "s \<le> 1 + 1 / 1000000000000000"
    using sup aup tup hb unfolding Ub by linarith
  ultimately have "\<bar>s - 1\<bar> \<le> 1 / 1000000000000000"
    by linarith
  then have "\<bar>s - 1\<bar> \<le> 1 / 10 ^ 15"
    by simp
  moreover have "jgt (V_rupees st) (Fin 0)"
    using assms(5,6) by simp
  then have "weightE_input st = JNum (Fin we)" and "weightD_input st = JNum (Fin wd)"
    using assms(1,2,5,6) we wd
    by (simp_all add: weightE_input_def weightD_input_def x1_def x2_def)
  moreover have "jadd (Fin we) (Fin wd) = Fin s"
    using s by simp
  ultimately show ?thesis
    by blast
qed

theorem weights_sum_to_one_witness:
  "E_rupees workedScenario = Fin 2000000000 \<and> D_rupees workedScenario = Fin 500000000
   \<and> (0::real) \<le> 2000000000 \<and> (0::real) \<le> 500000000
   \<and> V_rupees workedScenario = Fin 2500000000 \<and> (0::real) < 2500000000
   \<and> (\<exists>we wd s. weightE_input workedScenario = JNum (Fin we)
         \<and> weightD_input workedScenario = JNum (Fin wd)
         \<and> jadd (Fin we) (Fin wd) = Fin s \<and> \<bar>s - 1\<bar> \<le> 1 / 10 ^ 15)"
proof -
  have "\<exists>we wd s. weightE_input workedScenario = JNum (Fin we)
         \<and> weightD_input workedScenario = JNum (Fin wd)
         \<and> jadd (Fin we) (Fin wd) = Fin s \<and> \<bar>s - 1\<bar> \<le> 1 / 10 ^ 15"
    by (rule weights_sum_to_one [OF E_worked D_worked _ _ V_worked]) simp_all
  then show ?thesis
    by (simp add: E_worked D_worked V_worked del: finite_ops)
qed

text \<open>
  C3, as stated, fails for the final weights: with equity and debt both 50 crore while
  the API answer to the worked scenario is still held, \<open>E / V\<close> and \<open>D / V\<close> are both 0.5,
  but the final weights are the answer's 0.8 and 0.2.
\<close>

theorem derived_weights_counterexample:
  "E_rupees evenStale = Fin 500000000 \<and> D_rupees evenStale = Fin 500000000
   \<and> V_rupees evenStale = Fin 1000000000 \<and> jgt (V_rupees evenStale) (Fin 0)
   \<and> jdiv (E_rupees evenStale) (V_rupees evenStale) = Fin (1 / 2)
   \<and> jdiv (D_rupees evenStale) (V_rupees evenStale) = Fin (1 / 2)
   \<and> weightE evenStale = JNum (Fin (3602879701896397 / 2 ^ 52))
   \<and> weightE evenStale \<noteq> JNum (jdiv (E_rupees evenStale) (V_rupees evenStale))
   \<and> weightD evenStale = JNum (Fin (3602879701896397 / 2 ^ 54))
   \<and> weightD evenStale \<noteq> JNum (jdiv (D_rupees evenStale) (V_rupees evenStale))"
  by (simp add: even_amounts weight_eval weightE_def weightD_def stale_weights del: finite_ops)

text \<open>
  C3, amended. Whenever the total capital \<open>V = E + D\<close>, as computed, is positive, the
  weights derived from the inputs are \<open>E / V\<close> and \<open>D / V\<close> in JavaScript's division: for
  finite amounts, \<open>V\<close> is the sum rounded to binary64 and, when \<open>V\<close> is finite, the weights
  are the quotients rounded to binary64. A final weight is the weight derived from the
  inputs when the API answer holds no number for it, and the number of the API answer
  otherwise.
\<close>

theorem derived_weights_exact:
  assumes "jgt (V_rupees st) (Fin 0)"
  shows "V_rupees st = jadd (E_rupees st) (D_rupees st)
     \<and> weightE_input st = JNum (jdiv (E_rupees st) (V_rupees st))
     \<and> weightD_input st = JNum (jdiv (D_rupees st) (V_rupees st))
     \<and> (E_rupees st = Fin e \<and> D_rupees st = Fin d \<longrightarrow> V_rupees st = round64 (e + d))
     \<and> (E_rupees st = Fin e \<and> V_rupees st = Fin v \<longrightarrow> weightE_input st = JNum (round64 (e / v)))
     \<and> (D_rupees st = Fin d \<and> V_rupees st = Fin v \<longrightarrow> weightD_input st = JNum (round64 (d / v)))
     \<and> (\<not> isNumber (optField r_weightE st) \<longrightarrow>
          weightE st = JNum (jdiv (E_rupees st) (V_rupees st)))
     \<and> (\<not> isNumber (optField r_weightD st) \<longrightarrow>
          weightD st = JNum (jdiv (D_rupees st) (V_rupees st)))
     \<and> (isNumber (optField r_weightE st) \<longrightarrow> weightE st = optField r_weightE st)
     \<and> (isNumber (optField r_weightD st) \<longrightarrow> weightD st = optField r_weightD st)"
proof -
  have i: "weightE_input st = JNum (jdiv (E_rupees st) (V_rupees st))"
    "weightD_input st = JNum (jdiv (D_rupees st) (V_rupees st))"
    using assms by (simp_all add: weightE_input_def weightD_input_def)
  have s: "V_rupees st = round64 (e + d)" if "E_rupees st = Fin e" and "D_rupees st = Fin d"
    using that by (simp add: V_rupees_def)
  have q: "jdiv (Fin x) (V_rupees st) = round64 (x / v)" if "V_rupees st = Fin v" for x
    using that assms by simp
  have f: "weightE st = JNum (jdiv (E_rupees st) (V_rupees st))"
    if "\<not> isNumber (optField r_weightE st)"
    using that i by (simp add: weightE_def coalesce_def)
  have g: "weightD st = JNum (jdiv (D_rupees st) (V_rupees st))"
    if "\<not> isNumber (optField r_weightD st)"
    using that i by (simp add: weightD_def coalesce_def)
  have "V_rupees st = jadd (E_rupees st) (D_rupees st)"
    by (simp add: V_rupees_def)
  moreover have "isNumber (optField r_weightE st) \<longrightarrow> weightE st = optField r_weightE st"
    by (simp add: weightE_def)
  moreover have "isNumber (optField r_weightD st) \<longrightarrow> weightD st = optField r_weightD st"
    by (simp add: weightD_def)
  moreover have "E_rupees st = Fin e \<and> V_rupees st = Fin v \<longrightarrow> weightE_input st = JNum (round64 (e / v))"
    using i(1) q [of e] by auto
  moreover have "D_rupees st = Fin d \<and> V_rupees st = Fin v \<longrightarrow> weightD_input st = JNum (round64 (d / v))"
    using i(2) q [of d] by auto
  ultimately show ?thesis
    using i s f g by blast
qed

theorem derived_weights_exact_witness:
  "jgt (V_rupees workedScenario) (Fin 0)
   \<and> E_rupees workedScenario = Fin 2000000000 \<and> D_rupees workedScenario = Fin 500000000
   \<and> V_rupees workedScenario = Fin 2500000000
   \<and> V_rupees workedScenario = round64 (2000000000 + 500000000)
   \<and> weightE_input workedScenario = JNum (round64 (2000000000 / 2500000000))
   \<and> weightD_input workedScenario = JNum (round64 (500000000 / 2500000000))
   \<and> \<not> isNumber (optField r_weightE workedScenario)
   \<and> weightE workedScenario = JNum (jdiv (E_rupees workedScenario) (V_rupees workedScenario))
   \<and> \<not> isNumber (optField r_weightD workedScenario)
   \<and> weightD workedScenario = JNum (jdiv (D_rupees workedScenario) (V_rupees workedScenario))
   \<and> jgt (V_rupees evenStale) (Fin 0)
   \<and> isNumber (optField r_weightE evenStale)
   \<and> weightE evenStale = optField r_weightE evenStale
   \<and> isNumber (optField r_weightD evenStale)
   \<and> weightD evenStale = optField r_weightD evenStale"
proof -
  have p: "jgt (V_rupees workedScenario) (Fin 0)"
    by (simp add: V_worked)
  have q: "jgt (V_rupees evenStale) (Fin 0)"
    by (simp add: even_amounts)
  have n: "\<not> isNumber (optField r_weightE workedScenario)"
    "\<not> isNumber (optField r_weightD workedScenario)"
    by (simp_all add: no_result_worked)
  have m: "isNumber (optField r_weightE evenStale)" "isNumber (optField r_weightD evenStale)"
    by (simp_all add: stale_weights)
  note a = derived_weights_exact [OF p, of 2000000000 500000000 2500000000]
  note b = derived_weights_exact [OF q]
  have a1: "V_rupees workedScenario = round64 (2000000000 + 500000000)"
    using a E_worked D_worked by blast
  have a2: "weightE_input workedScenario = JNum (round64 (2000000000 / 2500000000))"
    using a E_worked V_worked by blast
  have a3: "weightD_input workedScenario = JNum (round64 (500000000 / 2500000000))"
    using a D_worked V_worked by blast
  have a4: "weightE workedScenario
      = JNum (jdiv (E_rupees workedScenario) (V_rupees workedScenario))"
    using a n(1) by blast
  have a5: "weightD workedScenario
      = JNum (jdiv (D_rupees workedScenario) (V_rupees workedScenario))"
    using a n(2) by blast
  have b1: "weightE evenStale = optField r_weightE evenStale"
    using b m(1) by blast
  have b2: "weightD evenStale = optField r_weightD evenStale"
    using b m(2) by blast
  show ?thesis
    using p q n m E_worked D_worked V_worked a1 a2 a3 a4 a5 b1 b2 by blast
qed

text \<open>
  C4, as stated, fails in the last digit: in the worked scenario the locally computed
  WACC is the binary64 number \<open>0.10350000000000001\<close>, the next one above the number that
  the literal \<open>0.1035\<close> denotes.
\<close>

theorem worked_scenario_counterexample:
  "waccComputed workedScenario = Fin (3728980491462771 / 2 ^ 55)
   \<and> stringToNumber ''0.1035'' = Fin (7457960982925541 / 2 ^ 56)
   \<and> waccComputed workedScenario \<noteq> stringToNumber ''0.1035''"
  by (simp add: wacc_worked number_fractions)

text \<open>
  C4, amended. In the worked scenario the total capital is 250 crore, the weights are
  the numbers 0.8 and 0.2, the rates are the numbers 0.12, 0.05 and 0.25, and the locally
  computed WACC is the number \<open>0.10350000000000001\<close>, which differs from 0.1035 by less
  than \<open>10^-17\<close>.
\<close>

theorem worked_scenario:
  "V_rupees workedScenario = jmul (Fin 250) croreToRupees
   \<and> V_rupees workedScenario = Fin 2500000000
   \<and> weightE workedScenario = JNum (stringToNumber ''0.8'')
   \<and> weightD workedScenario = JNum (stringToNumber ''0.2'')
   \<and> Re_dec workedScenario = JNum (stringToNumber ''0.12'')
   \<and> Rd_dec workedScenario = JNum (stringToNumber ''0.05'')
   \<and> Tc_dec workedScenario = JNum (stringToNumber ''0.25'')
   \<and> waccComputed workedScenario = stringToNumber ''0.10350000000000001''
   \<and> waccComputed workedScenario = Fin (3728980491462771 / 2 ^ 55)
   \<and> \<bar>3728980491462771 / 2 ^ 55 - 1035 / 10000\<bar> \<le> (1 / 10 ^ 17 :: real)"
  by (simp add: wacc_worked weights_worked rates_worked V_worked number_fractions
      croreToRupees_def scale_eval del: finite_ops)

section \<open>Input normalization\<close>

text \<open>
  C5, as stated, fails: not every percentage field is normalized. With an explicit cost
  of equity typed in, the risk-free rate 4, the beta 1.2 and the market risk premium 6
  of the form are not divided by 100 but left out of the request; with beta missing, the
  risk-free rate that was typed in is left out as well.
\<close>

theorem input_normalization_counterexample:
  "re capmForm = ''12'' \<and> rf capmForm = ''4'' \<and> beta capmForm = ''1.2''
   \<and> marketRiskPremium capmForm = ''6''
   \<and> toDecimal ''4'' = JNum (Fin (5764607523034235 / 2 ^ 57))
   \<and> p_rf (submitPayload capmForm) = None
   \<and> p_beta (submitPayload capmForm) = None
   \<and> p_marketRiskPremium (submitPayload capmForm) = None
   \<and> rf missingBetaForm = ''4'' \<and> p_rf (submitPayload missingBetaForm) = None"
proof -
  have "toDecimal ''4'' = JNum (jdiv (Fin 4) (Fin 100))"
    by (simp add: toDecimal_def number_small del: finite_ops)
  then have "toDecimal ''4'' = JNum (Fin (5764607523034235 / 2 ^ 57))"
    by (simp only: percent_eval)
  then show ?thesis
    by (simp add: payload_fields capmForm_def missingBetaForm_def workedForm_def)
qed

text \<open>
  C5, amended. The request always carries \<open>rd\<close> and \<open>taxRate\<close> as the number read from
  the field divided by 100, or as \<open>undefined\<close> (which differs from 0) when the field is
  empty, and \<open>equityValue\<close> and \<open>debtValue\<close> as the number read from the field multiplied
  by 10,000,000, or as 0 when the field is empty. It carries \<open>re\<close>, divided by 100, only
  when that field is not empty. It carries \<open>rf\<close> and \<open>marketRiskPremium\<close>, divided by 100,
  and \<open>beta\<close>, as read, only when \<open>re\<close> is empty and none of the three is; otherwise none
  of the three is a property of the request. A decimal numeral \<open>n\<close> is read as \<open>n\<close> rounded
  to binary64, and the quotient and the product are rounded again. The values derived
  for the formula panel use the same two conversions.
\<close>

theorem input_normalization:
  "p_rd (submitPayload f)
     = (if rd f = [] then JUndefined else JNum (jdiv (stringToNumber (rd f)) (Fin 100)))
   \<and> p_taxRate (submitPayload f)
     = (if taxRate f = [] then JUndefined else JNum (jdiv (stringToNumber (taxRate f)) (Fin 100)))
   \<and> p_re (submitPayload f)
     = (if re f = [] then None else Some (JNum (jdiv (stringToNumber (re f)) (Fin 100))))
   \<and> p_rf (submitPayload f)
     = (if re f = [] \<and> rf f \<noteq> [] \<and> beta f \<noteq> [] \<and> marketRiskPremium f \<noteq> []
        then Some (JNum (jdiv (stringToNumber (rf f)) (Fin 100))) else None)
   \<and> p_beta (submitPayload f)
     = (if re f = [] \<and> rf f \<noteq> [] \<and> beta f \<noteq> [] \<and> marketRiskPremium f \<noteq> []
        then Some (stringToNumber (beta f)) else None)
   \<and> p_marketRiskPremium (submitPayload f)
     = (if re f = [] \<and> rf f \<noteq> [] \<and> beta f \<noteq> [] \<and> marketRiskPremium f \<noteq> []
        then Some (JNum (jdiv (stringToNumber (marketRiskPremium f)) (Fin 100))) else None)
   \<and> p_equityValue (submitPayload f)
     = (if equityValue f = [] then Fin 0
        else jmul (stringToNumber (equityValue f)) (Fin 10000000))
   \<and> p_debtValue (submitPayload f)
     = (if debtValue f = [] then Fin 0 else jmul (stringToNumber (debtValue f)) (Fin 10000000))
   \<and> toDecimal [] = JUndefined \<and> toDecimal [] \<noteq> JNum (Fin 0) \<and> scaleCrore [] = Fin 0
   \<and> toDecimal (showNat n) = JNum (jdiv (round64 (real n)) (Fin 100))
   \<and> scaleCrore (showNat n) = jmul (round64 (real n)) (Fin 10000000)
   \<and> percentOrUndefined s = toDecimal s \<and> croreToNumber s = scaleCrore s"
proof -
  have z: "scaleCrore [] = Fin 0"
    by (simp add: scaleCrore_def croreToRupees_def scale_eval del: finite_ops)
  show ?thesis
    by (simp add: payload_fields toDecimal_def z percentOrUndefined_def croreToNumber_def
        stringToNumber_showNat showNat_nonempty)
      (simp add: scaleCrore_def croreToRupees_def stringToNumber_showNat showNat_nonempty
        round64_zero)
qed

theorem input_normalization_witness:
  "p_rd (submitPayload capmForm) = JNum (Fin (3602879701896397 / 2 ^ 56))
   \<and> p_taxRate (submitPayload capmForm) = JNum (Fin (1 / 4))
   \<and> p_re (submitPayload capmForm) = Some (JNum (Fin (1080863910568919 / 2 ^ 53)))
   \<and> p_rf (submitPayload capmForm) = None
   \<and> p_rf (submitPayload (capmForm\<lparr> re := [] \<rparr>)) = Some (JNum (Fin (5764607523034235 / 2 ^ 57)))
   \<and> p_beta (submitPayload (capmForm\<lparr> re := [] \<rparr>)) = Some (Fin (5404319552844595 / 2 ^ 52))
   \<and> p_equityValue (submitPayload capmForm) = Fin 2000000000
   \<and> p_debtValue (submitPayload capmForm) = Fin 500000000
   \<and> p_rd (submitPayload (capmForm\<lparr> rd := [] \<rparr>)) = JUndefined
   \<and> p_debtValue (submitPayload (capmForm\<lparr> debtValue := [] \<rparr>)) = Fin 0"
proof -
  note a = input_normalization [of capmForm 0 "[]"]
  note b = input_normalization [of "capmForm\<lparr> re := [] \<rparr>" 0 "[]"]
  note c = input_normalization [of "capmForm\<lparr> rd := [] \<rparr>" 0 "[]"]
  note d = input_normalization [of "capmForm\<lparr> debtValue := [] \<rparr>" 0 "[]"]
  have "p_rd (submitPayload capmForm) = JNum (jdiv (Fin 5) (Fin 100))"
    using a by (simp add: capmForm_def workedForm_def number_small del: finite_ops)
  then have a1: "p_rd (submitPayload capmForm) = JNum (Fin (3602879701896397 / 2 ^ 56))"
    by (simp only: percent_eval)
  have "p_taxRate (submitPayload capmForm) = JNum (jdiv (Fin 25) (Fin 100))"
    using a by (simp add: capmForm_def workedForm_def number_small del: finite_ops)
  then have a2: "p_taxRate (submitPayload capmForm) = JNum (Fin (1 / 4))"
    by (simp only: percent_eval)
  have "p_re (submitPayload capmForm) = Some (JNum (jdiv (Fin 12) (Fin 100)))"
    using a by (simp add: capmForm_def workedForm_def number_small del: finite_ops)
  then have a3: "p_re (submitPayload capmForm) = Some (JNum (Fin (1080863910568919 / 2 ^ 53)))"
    by (simp only: percent_eval)
  have a4: "p_rf (submitPayload capmForm) = None"
    using a by (simp add: capmForm_def workedForm_def)
  have "p_equityValue (submitPayload capmForm) = jmul (Fin 200) (Fin 10000000)"
    using a by (simp add: capmForm_def workedForm_def number_small del: finite_ops)
  then have a5: "p_equityValue (submitPayload capmForm) = Fin 2000000000"
    by (simp only: scale_eval)
  have "p_debtValue (submitPayload capmForm) = jmul (Fin 50) (Fin 10000000)"
    using a by (simp add: capmForm_def workedForm_def number_small del: finite_ops)
  then have a6: "p_debtValue (submitPayload capmForm) = Fin 500000000"
    by (simp only: scale_eval)
  have "p_rf (submitPayload (capmForm\<lparr> re := [] \<rparr>)) = Some (JNum (jdiv (Fin 4) (Fin 100)))"
    using b by (simp add: capmForm_def workedForm_def number_small del: finite_ops)
  then have b1: "p_rf (submitPayload (capmForm\<lparr> re := [] \<rparr>))
      = Some (JNum (Fin (5764607523034235 / 2 ^ 57)))"
    by (simp only: percent_eval)
  have "p_beta (submitPayload (capmForm\<lparr> re := [] \<rparr>)) = Some (stringToNumber ''1.2'')"
    using b by (simp add: capmForm_def workedForm_def)
  then have b2: "p_beta (submitPayload (capmForm\<lparr> re := [] \<rparr>))
      = Some (Fin (5404319552844595 / 2 ^ 52))"
    by (simp only: number_fractions)
  have c1: "p_rd (submitPayload (capmForm\<lparr> rd := [] \<rparr>)) = JUndefined"
    using c by (simp add: capmForm_def workedForm_def)
  have d1: "p_debtValue (submitPayload (capmForm\<lparr> debtValue := [] \<rparr>)) = Fin 0"
    using d by (simp add: capmForm_def workedForm_def)
  from a1 a2 a3 a4 a5 a6 b1 b2 c1 d1 show ?thesis
    by blast
qed

text \<open>
  C6, as stated, fails: the text \<open>abc\<close> in the cost-of-equity box is neither rejected nor
  treated as absent. It is converted to \<open>NaN\<close>, which is sent in the request and makes the
  locally computed WACC \<open>NaN\<close>.
\<close>

theorem non_numeric_counterexample:
  "stringToNumber ''abc'' = NaN \<and> re garbledForm = ''abc''
   \<and> toDecimal ''abc'' = JNum NaN
   \<and> p_re (submitPayload garbledForm) = Some (JNum NaN)
   \<and> Re_dec garbledState = JNum NaN
   \<and> waccComputed garbledState = NaN"
proof -
  obtain w where "weightE garbledState = JNum w"
    using weights_without_result(1) [of garbledState] by (auto simp add: garbledState_def)
  moreover have "Re_dec garbledState = JNum NaN"
    by (simp add: Re_dec_def garbledState_def garbledForm_def optField_def coalesce_def
        percentOrUndefined_def number_abc)
  ultimately have "waccComputed garbledState = NaN"
    by (simp add: waccComputed_def jmul_NaN_right)
  then show ?thesis
    by (simp add: garbledState_def garbledForm_def payload_fields toDecimal_def number_abc
        Re_dec_def optField_def coalesce_def percentOrUndefined_def)
qed

text \<open>
  C6, amended. Only the empty text is treated as absent. Every text that \<open>Number\<close> reads
  as \<open>NaN\<close> is normalized to \<open>NaN\<close>: in a percentage field and in a currency field, in the
  request, and, typed as the cost of equity with no API answer, in the locally computed
  WACC.
\<close>

theorem non_numeric_becomes_NaN:
  assumes "stringToNumber s = NaN"
  shows "s \<noteq> [] \<and> toDecimal s = JNum NaN \<and> scaleCrore s = NaN
     \<and> p_rd (submitPayload (f\<lparr> rd := s \<rparr>)) = JNum NaN
     \<and> p_taxRate (submitPayload (f\<lparr> taxRate := s \<rparr>)) = JNum NaN
     \<and> p_re (submitPayload (f\<lparr> re := s \<rparr>)) = Some (JNum NaN)
     \<and> p_equityValue (submitPayload (f\<lparr> equityValue := s \<rparr>)) = NaN
     \<and> p_debtValue (submitPayload (f\<lparr> debtValue := s \<rparr>)) = NaN
     \<and> Re_dec \<lparr> form = f\<lparr> re := s \<rparr>, result = None \<rparr> = JNum NaN
     \<and> waccComputed \<lparr> form = f\<lparr> re := s \<rparr>, result = None \<rparr> = NaN"
proof -
  let ?st = "\<lparr> form = f\<lparr> re := s \<rparr>, result = None \<rparr>"
  have ne: "s \<noteq> []"
    using assms number_empty by auto
  have r: "Re_dec ?st = JNum NaN"
    using assms ne by (simp add: Re_dec_def optField_def coalesce_def percentOrUndefined_def)
  obtain w where "weightE ?st = JNum w"
    using weights_without_result(1) [of ?st] by auto
  with r have "waccComputed ?st = NaN"
    by (simp add: waccComputed_def jmul_NaN_right)
  with r ne assms show ?thesis
    by (simp add: payload_fields toDecimal_def scaleCrore_def croreToRupees_def)
qed

theorem non_numeric_becomes_NaN_witness:
  "stringToNumber ''abc'' = NaN \<and> toDecimal ''abc'' = JNum NaN
   \<and> p_rd (submitPayload (workedForm\<lparr> rd := ''abc'' \<rparr>)) = JNum NaN
   \<and> waccComputed \<lparr> form = workedForm\<lparr> re := ''abc'' \<rparr>, result = None \<rparr> = NaN"
  using non_numeric_becomes_NaN [OF number_abc, of workedForm] number_abc by simp

section \<open>The cost of equity\<close>

text \<open>
  C7. When an explicit cost of equity is typed in, the request carries it (divided by
  100) and none of the CAPM inputs, whatever they are; the request and the local cost of
  equity do not depend on the CAPM fields.
\<close>

theorem explicit_re_precedence:
  assumes "re f \<noteq> []"
  shows "p_re (submitPayload f) = Some (JNum (jdiv (stringToNumber (re f)) (Fin 100)))
     \<and> p_rf (submitPayload f) = None
     \<and> p_beta (submitPayload f) = None
     \<and> p_marketRiskPremium (submitPayload f) = None
     \<and> submitPayload (f\<lparr> rf := a, beta := b, marketRiskPremium := c \<rparr>) = submitPayload f
     \<and> Re_dec \<lparr> form = f\<lparr> rf := a, beta := b, marketRiskPremium := c \<rparr>, result = r \<rparr>
         = Re_dec \<lparr> form = f, result = r \<rparr>
     \<and> Re_dec \<lparr> form = f, result = None \<rparr> = JNum (jdiv (stringToNumber (re f)) (Fin 100))"
  using assms
  by (simp add: payload_fields toDecimal_def Re_dec_def optField_def coalesce_def
      percentOrUndefined_def)

theorem explicit_re_precedence_witness:
  "re capmForm \<noteq> [] \<and> rf capmForm \<noteq> [] \<and> beta capmForm \<noteq> [] \<and> marketRiskPremium capmForm \<noteq> []
   \<and> p_re (submitPayload capmForm) = Some (JNum (Fin (1080863910568919 / 2 ^ 53)))
   \<and> p_rf (submitPayload capmForm) = None
   \<and> p_beta (submitPayload capmForm) = None
   \<and> p_marketRiskPremium (submitPayload capmForm) = None
   \<and> submitPayload workedForm = submitPayload capmForm
   \<and> Re_dec \<lparr> form = capmForm, result = None \<rparr> = JNum (Fin (1080863910568919 / 2 ^ 53))"
proof -
  have ne: "re capmForm \<noteq> []" "rf capmForm \<noteq> []" "beta capmForm \<noteq> []"
    "marketRiskPremium capmForm \<noteq> []"
    by (simp_all add: capmForm_def workedForm_def)
  have w: "capmForm\<lparr> rf := '''', beta := '''', marketRiskPremium := '''' \<rparr> = workedForm"
    by (simp add: capmForm_def workedForm_def)
  have "jdiv (stringToNumber (re capmForm)) (Fin 100) = jdiv (Fin 12) (Fin 100)"
    by (simp add: capmForm_def workedForm_def number_small del: finite_ops)
  then have v: "jdiv (stringToNumber (re capmForm)) (Fin 100) = Fin (1080863910568919 / 2 ^ 53)"
    by (simp only: percent_eval)
  note t = explicit_re_precedence [OF ne(1), of "''''" "''''" "''''" None]
  have t1: "p_re (submitPayload capmForm) = Some (JNum (Fin (1080863910568919 / 2 ^ 53)))"
    using t by (simp only: v)
  have t2: "Re_dec \<lparr> form = capmForm, result = None \<rparr> = JNum (Fin (1080863910568919 / 2 ^ 53))"
    using t by (simp only: v)
  have t3: "submitPayload workedForm = submitPayload capmForm"
    using t by (simp only: w)
  from t t1 t2 t3 ne show ?thesis
    by blast
qed

text \<open>
  C8, as stated, fails: with no explicit cost of equity and no beta, nothing fails. The
  request is built without any cost-of-equity input, and the locally computed WACC is
  the number \<open>0.0075000000000000015\<close>, the same as for a cost of equity of 0.
\<close>

theorem missing_capm_counterexample:
  "re missingBetaForm = [] \<and> beta missingBetaForm = []
   \<and> p_re (submitPayload missingBetaForm) = None
   \<and> p_rf (submitPayload missingBetaForm) = None
   \<and> p_beta (submitPayload missingBetaForm) = None
   \<and> p_marketRiskPremium (submitPayload missingBetaForm) = None
   \<and> Re_dec missingBetaState = JUndefined
   \<and> waccComputed missingBetaState = Fin (4323455642275677 / 2 ^ 59)
   \<and> waccComputed \<lparr> form = missingBetaForm\<lparr> re := ''0'' \<rparr>, result = None \<rparr>
       = Fin (4323455642275677 / 2 ^ 59)"
proof -
  have "re missingBetaForm = [] \<and> beta missingBetaForm = []
     \<and> p_re (submitPayload missingBetaForm) = None
     \<and> p_rf (submitPayload missingBetaForm) = None
     \<and> p_beta (submitPayload missingBetaForm) = None
     \<and> p_marketRiskPremium (submitPayload missingBetaForm) = None"
    by (simp add: payload_fields missingBetaForm_def workedForm_def)
  with missing_beta_values(5) wacc_missing_beta wacc_zero_re show ?thesis
    by blast
qed

text \<open>
  C8, amended. With no explicit cost of equity and at least one CAPM input missing, the
  form raises no error of its own: the request carries none of \<open>re\<close>, \<open>rf\<close>, \<open>beta\<close> and
  \<open>marketRiskPremium\<close>, and, unless the API answer supplies \<open>re\<close>, the local cost of equity
  is \<open>undefined\<close> (not 0) and the locally computed WACC counts the equity term as 0: it is
  \<open>weightD * Rd * (1 - Tc)\<close> when these three are numbers, and 0 otherwise.
\<close>

theorem missing_capm_inputs:
  assumes "re (form st) = []"
    and "rf (form st) = [] \<or> beta (form st) = [] \<or> marketRiskPremium (form st) = []"
  shows "p_re (submitPayload (form st)) = None
     \<and> p_rf (submitPayload (form st)) = None
     \<and> p_beta (submitPayload (form st)) = None
     \<and> p_marketRiskPremium (submitPayload (form st)) = None
     \<and> (nullish (optField r_re st) \<longrightarrow>
          Re_dec st = JUndefined
          \<and> (weightD st = JNum wd \<and> Rd_dec st = JNum d \<and> Tc_dec st = JNum t \<longrightarrow>
               waccComputed st = jmul (jmul wd d) (jsub (Fin 1) t))
          \<and> (\<not> (isNumber (weightD st) \<and> isNumber (Rd_dec st) \<and> isNumber (Tc_dec st)) \<longrightarrow>
               waccComputed st = Fin 0))"
proof -
  have p: "p_re (submitPayload (form st)) = None \<and> p_rf (submitPayload (form st)) = None
     \<and> p_beta (submitPayload (form st)) = None
     \<and> p_marketRiskPremium (submitPayload (form st)) = None"
    using assms by (auto simp add: payload_fields)
  have r: "Re_dec st = JUndefined" if "nullish (optField r_re st)"
    using that assms(1) by (simp add: Re_dec_def coalesce_def percentOrUndefined_def)
  have e: "(case (weightE st, Re_dec st) of (JNum w, JNum x) \<Rightarrow> jmul w x | _ \<Rightarrow> Fin 0) = Fin 0"
    if "nullish (optField r_re st)"
    using r [OF that] by (simp split: jsval.splits)
  have w1: "waccComputed st = jmul (jmul wd d) (jsub (Fin 1) t)"
    if "nullish (optField r_re st)" and "weightD st = JNum wd" and "Rd_dec st = JNum d"
      and "Tc_dec st = JNum t"
    using that e by (simp add: waccComputed_def jadd_zero_jmul)
  have w0: "waccComputed st = Fin 0"
    if "nullish (optField r_re st)"
      and "\<not> (isNumber (weightD st) \<and> isNumber (Rd_dec st) \<and> isNumber (Tc_dec st))"
  proof -
    have "(case (weightD st, Rd_dec st, Tc_dec st) of
             (JNum w, JNum x, JNum y) \<Rightarrow> jmul (jmul w x) (jsub (Fin 1) y)
           | _ \<Rightarrow> Fin 0) = Fin 0"
      using that(2) by (auto split: jsval.splits)
    with e [OF that(1)] show ?thesis
      by (simp add: waccComputed_def total_eval del: finite_ops)
  qed
  from p r w1 w0 show ?thesis
    by blast
qed

theorem missing_capm_inputs_witness:
  "re (form missingBetaState) = [] \<and> beta (form missingBetaState) = []
   \<and> nullish (optField r_re missingBetaState)
   \<and> p_re (submitPayload (form missingBetaState)) = None
   \<and> p_rf (submitPayload (form missingBetaState)) = None
   \<and> Re_dec missingBetaState = JUndefined
   \<and> weightD missingBetaState = JNum (Fin (3602879701896397 / 2 ^ 54))
   \<and> Rd_dec missingBetaState = JNum (Fin (3602879701896397 / 2 ^ 56))
   \<and> Tc_dec missingBetaState = JNum (Fin (1 / 4))
   \<and> waccComputed missingBetaState
       = jmul (jmul (Fin (3602879701896397 / 2 ^ 54)) (Fin (3602879701896397 / 2 ^ 56)))
           (jsub (Fin 1) (Fin (1 / 4)))"
proof -
  have h: "re (form missingBetaState) = []" "beta (form missingBetaState) = []"
    "nullish (optField r_re missingBetaState)"
    by (simp_all add: missingBetaState_def missingBetaForm_def workedForm_def optField_def)
  have g: "rf (form missingBetaState) = [] \<or> beta (form missingBetaState) = []
     \<or> marketRiskPremium (form missingBetaState) = []"
    using h(2) by simp
  note v = missing_beta_values(2-4)
  note t = missing_capm_inputs [OF h(1) g, of "Fin (3602879701896397 / 2 ^ 54)"
      "Fin (3602879701896397 / 2 ^ 56)" "Fin (1 / 4)"]
  from t h v show ?thesis
    by blast
qed

section \<open>The degenerate capital structure\<close>

text \<open>
  C9, as stated, fails: with equity and debt both 0 while the API answer to an earlier
  request is still held, nothing fails and the weights reported are the answer's 0.8
  and 0.2, not 0.
\<close>

theorem degenerate_counterexample:
  "E_rupees degenerateStale = Fin 0 \<and> D_rupees degenerateStale = Fin 0
   \<and> weightE degenerateStale = JNum (Fin (3602879701896397 / 2 ^ 52))
   \<and> weightE degenerateStale \<noteq> JNum (Fin 0)
   \<and> weightD degenerateStale = JNum (Fin (3602879701896397 / 2 ^ 54))
   \<and> weightD degenerateStale \<noteq> JNum (Fin 0)"
  by (simp add: degenerate_amounts weightE_def weightD_def stale_weights)

text \<open>
  C9, amended. With equity and debt both 0 the weights computation never fails and
  never divides: the weights derived from the inputs are \<open>undefined\<close>, and each final
  weight is 0 whenever the API answer supplies no value for it (no answer, or a field
  that is \<open>undefined\<close> or \<open>null\<close>); otherwise it is the value the API answer supplies.
\<close>

theorem degenerate_weights:
  assumes "E_rupees st = Fin 0" and "D_rupees st = Fin 0"
  shows "weightE_input st = JUndefined \<and> weightD_input st = JUndefined
     \<and> (nullish (optField r_weightE st) \<longrightarrow> weightE st = JNum (Fin 0))
     \<and> (nullish (optField r_weightD st) \<longrightarrow> weightD st = JNum (Fin 0))
     \<and> (\<not> nullish (optField r_weightE st) \<longrightarrow> weightE st = optField r_weightE st)
     \<and> (\<not> nullish (optField r_weightD st) \<longrightarrow> weightD st = optField r_weightD st)"
proof -
  have v: "V_rupees st = Fin 0"
    using assms by (simp add: V_rupees_def total_eval del: finite_ops)
  then have i: "weightE_input st = JUndefined" "weightD_input st = JUndefined"
    by (simp_all add: weightE_input_def weightD_input_def)
  show ?thesis
    using i by (auto simp add: weightE_def weightD_def coalesce_def elim: nullish.elims)
qed

theorem degenerate_weights_witness:
  "E_rupees degenerateFresh = Fin 0 \<and> D_rupees degenerateFresh = Fin 0
   \<and> nullish (optField r_weightE degenerateFresh) \<and> nullish (optField r_weightD degenerateFresh)
   \<and> weightE degenerateFresh = JNum (Fin 0) \<and> weightD degenerateFresh = JNum (Fin 0)
   \<and> E_rupees degenerateStale = Fin 0 \<and> D_rupees degenerateStale = Fin 0
   \<and> \<not> nullish (optField r_weightE degenerateStale)
   \<and> weightE degenerateStale = optField r_weightE degenerateStale"
proof -
  have f: "nullish (optField r_weightE degenerateFresh)"
    "nullish (optField r_weightD degenerateFresh)"
    by (simp_all add: optField_def degenerateFresh_def)
  have s: "\<not> nullish (optField r_weightE degenerateStale)"
    by (simp add: stale_weights)
  note a = degenerate_weights [OF degenerate_amounts(3,4)]
  note b = degenerate_weights [OF degenerate_amounts(1,2)]
  from a b f s degenerate_amounts show ?thesis
    by blast
qed

section \<open>Formatting\<close>




end
